(* ===== verification/Prelude.thy ===== *)
theory Prelude
  imports Main "HOL-Library.Word"
begin

text \<open>
  Shared vocabulary of the development. A C++ member function call on an object
  is modelled as an action on the object's state that either returns a value and
  the new state, throws an exception (the state at the point of the throw is kept:
  C++ does not roll member assignments back), or ends the program through
  \<open>std::terminate\<close> (an exception leaving a \<open>noexcept\<close> function). The
  action combinators \<open>act_bind\<close>, \<open>act_get\<close>, \<open>act_modify\<close>, \<open>noexcept\<close>
  and \<open>lift_act\<close> (running an action of a sub-object, here the engine base
  class, on the whole object) carry the component proofs through the collection
  \<open>act_simps\<close>. The type \<open>size_t\<close> is the 64-bit unsigned word of the
  targets the library is built for.
\<close>

type_synonym size_t = "64 word"

datatype ('x, 's, 'a) outcome =
    Ret 'a 's
  | Thrown 'x 's
  | Terminated

type_synonym ('s, 'x, 'a) act = "'s \<Rightarrow> ('x, 's, 'a) outcome"

named_theorems act_simps "rewrite rules that run actions"

definition ret :: "'a \<Rightarrow> ('s, 'x, 'a) act" where
  "ret a = (\<lambda>s. Ret a s)"

definition act_bind :: "('s, 'x, 'a) act \<Rightarrow> ('a \<Rightarrow> ('s, 'x, 'b) act) \<Rightarrow> ('s, 'x, 'b) act" where
  "act_bind f g = (\<lambda>s. case f s of
      Ret a s' \<Rightarrow> g a s'
    | Thrown x s' \<Rightarrow> Thrown x s'
    | Terminated \<Rightarrow> Terminated)"

definition act_seq :: "('s, 'x, 'a) act \<Rightarrow> ('s, 'x, 'b) act \<Rightarrow> ('s, 'x, 'b) act" where
  "act_seq f g = act_bind f (\<lambda>_. g)"

definition act_get :: "('s \<Rightarrow> 'a) \<Rightarrow> ('s, 'x, 'a) act" where
  "act_get f = (\<lambda>s. Ret (f s) s)"

definition act_modify :: "('s \<Rightarrow> 's) \<Rightarrow> ('s, 'x, unit) act" where
  "act_modify f = (\<lambda>s. Ret () (f s))"

text \<open>An exception that leaves a \<open>noexcept\<close> function calls \<open>std::terminate\<close>.\<close>

definition noexcept :: "('s, 'x, 'a) act \<Rightarrow> ('s, 'x, 'a) act" where
  "noexcept f = (\<lambda>s. case f s of Thrown _ _ \<Rightarrow> Terminated | r \<Rightarrow> r)"

text \<open>
  Running an action of a component of the state (a base-class sub-object):
  \<open>get\<close> reads the component, \<open>put\<close> writes it back, also when the action throws.
\<close>

definition lift_act :: "('t \<Rightarrow> 's) \<Rightarrow> ('s \<Rightarrow> 't \<Rightarrow> 't) \<Rightarrow> ('s, 'x, 'a) act \<Rightarrow> ('t, 'x, 'a) act" where
  "lift_act get put f = (\<lambda>t. case f (get t) of
      Ret a s \<Rightarrow> Ret a (put s t)
    | Thrown x s \<Rightarrow> Thrown x (put s t)
    | Terminated \<Rightarrow> Terminated)"

fun is_ret :: "('x, 's, 'a) outcome \<Rightarrow> bool" where
  "is_ret (Ret _ _) = True"
| "is_ret _ = False"

fun outcome_state :: "('x, 's, 'a) outcome \<Rightarrow> 's option" where
  "outcome_state (Ret _ s) = Some s"
| "outcome_state (Thrown _ s) = Some s"
| "outcome_state Terminated = None"

subsection \<open>Running actions\<close>

lemma ret_apply [act_simps]: "ret a s = Ret a s"
  by (simp add: ret_def)

lemma act_get_apply [act_simps]: "act_get f s = Ret (f s) s"
  by (simp add: act_get_def)

lemma act_modify_apply [act_simps]: "act_modify f s = Ret () (f s)"
  by (simp add: act_modify_def)

lemma act_bind_Ret [act_simps]: "f s = Ret a s' \<Longrightarrow> act_bind f g s = g a s'"
  by (simp add: act_bind_def)

lemma act_bind_Thrown [act_simps]: "f s = Thrown x s' \<Longrightarrow> act_bind f g s = Thrown x s'"
  by (simp add: act_bind_def)

lemma act_bind_Terminated [act_simps]: "f s = Terminated \<Longrightarrow> act_bind f g s = Terminated"
  by (simp add: act_bind_def)

lemma act_bind_apply: "act_bind f g s = (case f s of
      Ret a s' \<Rightarrow> g a s' | Thrown x s' \<Rightarrow> Thrown x s' | Terminated \<Rightarrow> Terminated)"
  by (simp add: act_bind_def)

lemma act_seq_apply: "act_seq f g s = (case f s of
      Ret a s' \<Rightarrow> g s' | Thrown x s' \<Rightarrow> Thrown x s' | Terminated \<Rightarrow> Terminated)"
  by (simp add: act_seq_def act_bind_def)

lemma noexcept_apply [act_simps]:
  "f s = Ret a s' \<Longrightarrow> noexcept f s = Ret a s'"
  "f s = Thrown x s' \<Longrightarrow> noexcept f s = Terminated"
  "f s = Terminated \<Longrightarrow> noexcept f s = Terminated"
  by (simp_all add: noexcept_def)

lemma lift_act_apply [act_simps]:
  "f (get t) = Ret a s \<Longrightarrow> lift_act get put f t = Ret a (put s t)"
  "f (get t) = Thrown x s \<Longrightarrow> lift_act get put f t = Thrown x (put s t)"
  "f (get t) = Terminated \<Longrightarrow> lift_act get put f t = Terminated"
  by (simp_all add: lift_act_def)

subsection \<open>Monad laws\<close>

lemma ret_bind [simp]: "act_bind (ret a) g = g a"
  by (simp add: act_bind_def ret_def)

lemma bind_ret [simp]: "act_bind f ret = f"
  by (simp add: act_bind_def ret_def fun_eq_iff split: outcome.split)

lemma bind_assoc [simp]:
  "act_bind (act_bind f g) h = act_bind f (\<lambda>a. act_bind (g a) h)"
  by (simp add: act_bind_def fun_eq_iff split: outcome.split)

lemma ret_seq [simp]: "act_seq (ret a) g = g"
  by (simp add: act_seq_def)

lemma seq_ret_unit [simp]: "act_seq f (ret ()) = (f :: ('s, 'x, unit) act)"
  by (simp add: act_seq_def act_bind_def ret_def fun_eq_iff split: outcome.split)

lemma seq_assoc [simp]: "act_seq (act_seq f g) h = act_seq f (act_seq g h)"
  by (simp add: act_seq_def)

lemma bind_cong_Ret:
  assumes "f s = f' s"
    and "\<And>a s'. f s = Ret a s' \<Longrightarrow> g a s' = g' a s'"
  shows "act_bind f g s = act_bind f' g' s"
  using assms by (simp add: act_bind_def split: outcome.split)

text \<open>
  Lifting an action of a component commutes with sequencing, provided that
  \<open>get\<close> and \<open>put\<close> behave as the selector and the update of one field.
\<close>

lemma lift_act_bind:
  assumes get_put: "\<And>s t. get (put s t) = s"
    and put_put: "\<And>s s' t. put s' (put s t) = put s' t"
  shows "lift_act get put (act_bind f g) = act_bind (lift_act get put f) (\<lambda>a. lift_act get put (g a))"
  by (simp add: fun_eq_iff lift_act_def act_bind_def get_put put_put split: outcome.split)

lemma outcome_state_is_ret: "is_ret r \<Longrightarrow> outcome_state r \<noteq> None"
  by (cases r) simp_all

subsection \<open>Sizes\<close>

text \<open>A vector's \<open>size()\<close> is below \<open>2 ^ 64\<close>, so converting it to \<open>size_t\<close> is exact.\<close>

lemma unat_size_of_length [simp]:
  "n < 2 ^ 64 \<Longrightarrow> unat (word_of_nat n :: size_t) = n"
  by (simp add: unat_of_nat)

end
