(* ===== verification/Engine.thy ===== *)
theory Engine
  imports Prelude
begin

text \<open>
  The engine is the template parameter of \<open>chaos::machine\<close> (src/include/chaos/machine.hh):
  a concrete chaotic algorithm that \<open>machine\<close> derives from virtually and whose members
  it calls: \<open>__default_key\<close>, \<open>__default_time\<close>, \<open>__set_key\<close>, \<open>__set_space\<close>,
  \<open>__set_time\<close>, \<open>__reset\<close>, \<open>push\<close> and \<open>pull\<close>. Its code is not part of the
  sources, so it is modelled from the contract of the spec (section 6): a record of
  the two constants and the six hooks, each hook an action on the engine's own state
  \<open>'e\<close> that may throw an exception of type \<open>'x\<close>. Types: \<open>'c\<close> the key cell
  (\<open>size_cell\<close>), \<open>'i\<close> the input block (\<open>size_push\<close>), \<open>'o\<close> the output
  block (\<open>size_pull\<close>).

  The contract's behavioural clauses are stated over two observations of the engine
  state, its space and its time parameter (\<open>engine_view\<close>), together with the
  canonical reset (\<open>reset_canonical\<close>). Two engines are defined here for use in the other theories:
  \<open>trace_engine\<close>, whose state is the list of hook calls it received, so that the
  order of calls an adapter operation makes can be computed; and \<open>demo_engine\<close>, a
  small keyed counter that meets the contract and serves the witnesses.
\<close>

record ('c, 'i, 'o, 'e, 'x) engine =
  default_key :: "'c list"
  default_time :: size_t
  eng_set_key :: "'c list \<Rightarrow> ('e, 'x, unit) act"
  eng_set_space :: "size_t \<Rightarrow> ('e, 'x, unit) act"
  eng_set_time :: "size_t \<Rightarrow> ('e, 'x, unit) act"
  eng_reset :: "('e, 'x, unit) act"
  eng_push :: "'i \<Rightarrow> ('e, 'x, unit) act"
  eng_pull :: "('e, 'x, 'o) act"

subsection \<open>The contract\<close>

definition hook_keeps :: "('e \<Rightarrow> 'v) \<Rightarrow> ('e, 'x, 'a) act \<Rightarrow> bool" where
  "hook_keeps obs h \<longleftrightarrow> (\<forall>e a e'. h e = Ret a e' \<longrightarrow> obs e' = obs e)"

definition hook_total :: "('e, 'x, 'a) act \<Rightarrow> bool" where
  "hook_total h \<longleftrightarrow> (\<forall>e. is_ret (h e))"

text \<open>The configuration hooks never throw.\<close>

definition config_total :: "('c, 'i, 'o, 'e, 'x) engine \<Rightarrow> bool" where
  "config_total E \<longleftrightarrow>
     (\<forall>k. hook_total (eng_set_key E k)) \<and> (\<forall>n. hook_total (eng_set_space E n)) \<and>
     (\<forall>n. hook_total (eng_set_time E n)) \<and> hook_total (eng_reset E)"

text \<open>
  \<open>sp\<close> and \<open>tm\<close> read the space and time parameter from the engine state:
  \<open>set-space\<close> and \<open>set-time\<close> set their own parameter and leave the other;
  every other hook leaves both.
\<close>

definition engine_view :: "('c, 'i, 'o, 'e, 'x) engine \<Rightarrow> ('e \<Rightarrow> size_t) \<Rightarrow> ('e \<Rightarrow> size_t) \<Rightarrow> bool" where
  "engine_view E sp tm \<longleftrightarrow>
     (\<forall>n e e'. eng_set_space E n e = Ret () e' \<longrightarrow> sp e' = n \<and> tm e' = tm e) \<and>
     (\<forall>n e e'. eng_set_time E n e = Ret () e' \<longrightarrow> tm e' = n \<and> sp e' = sp e) \<and>
     (\<forall>k. hook_keeps sp (eng_set_key E k) \<and> hook_keeps tm (eng_set_key E k)) \<and>
     hook_keeps sp (eng_reset E) \<and> hook_keeps tm (eng_reset E) \<and>
     (\<forall>b. hook_keeps sp (eng_push E b) \<and> hook_keeps tm (eng_push E b)) \<and>
     hook_keeps sp (eng_pull E) \<and> hook_keeps tm (eng_pull E)"

text \<open>\<open>__reset\<close> returns to a baseline that depends on space and time only.\<close>

definition reset_canonical :: "('c, 'i, 'o, 'e, 'x) engine \<Rightarrow> ('e \<Rightarrow> size_t) \<Rightarrow> ('e \<Rightarrow> size_t) \<Rightarrow> bool" where
  "reset_canonical E sp tm \<longleftrightarrow>
     (\<forall>e1 e2. sp e1 = sp e2 \<and> tm e1 = tm e2 \<longrightarrow> eng_reset E e1 = eng_reset E e2)"

definition engine_contract :: "('c, 'i, 'o, 'e, 'x) engine \<Rightarrow> ('e \<Rightarrow> size_t) \<Rightarrow> ('e \<Rightarrow> size_t) \<Rightarrow> bool" where
  "engine_contract E sp tm \<longleftrightarrow>
     default_key E \<noteq> [] \<and> config_total E \<and> engine_view E sp tm \<and> reset_canonical E sp tm"

text \<open>
  \<open>__set_key\<close> replaces the keyed state: a later key installation overrides an
  earlier one, and installing a key commutes with setting the space, which is
  overridden by a later space setting.
\<close>

subsection \<open>An engine that records the calls it receives\<close>

datatype ('c, 'i) call =
    Call_set_key "'c list"
  | Call_set_space size_t
  | Call_set_time size_t
  | Call_reset
  | Call_push 'i
  | Call_pull

definition record_call :: "('c, 'i) call \<Rightarrow> (('c, 'i) call list, 'x, unit) act" where
  "record_call c = act_modify (\<lambda>l. l @ [c])"

definition trace_engine :: "'c list \<Rightarrow> size_t \<Rightarrow> ('c, 'i, nat, ('c, 'i) call list, 'x) engine" where
  "trace_engine dk dt =
     \<lparr>default_key = dk, default_time = dt,
      eng_set_key = (\<lambda>k. record_call (Call_set_key k)),
      eng_set_space = (\<lambda>n. record_call (Call_set_space n)),
      eng_set_time = (\<lambda>n. record_call (Call_set_time n)),
      eng_reset = record_call Call_reset,
      eng_push = (\<lambda>b. record_call (Call_push b)),
      eng_pull = (\<lambda>l. Ret (length l) (l @ [Call_pull]))\<rparr>"

subsection \<open>Replaying hook calls\<close>

text \<open>
  The calls an adapter makes are the interface between the adapter and the engine:
  \<open>replay E cs\<close> runs the hooks of \<open>E\<close> named by \<open>cs\<close> in order, stopping at
  the first exception. The output of a pull is discarded here; pulls that deliver
  their block to the caller are modelled in the streaming theory.
\<close>

fun run_call :: "('c, 'i, 'o, 'e, 'x) engine \<Rightarrow> ('c, 'i) call \<Rightarrow> ('e, 'x, unit) act" where
  "run_call E (Call_set_key k) = eng_set_key E k"
| "run_call E (Call_set_space n) = eng_set_space E n"
| "run_call E (Call_set_time n) = eng_set_time E n"
| "run_call E Call_reset = eng_reset E"
| "run_call E (Call_push b) = eng_push E b"
| "run_call E Call_pull = act_seq (eng_pull E) (ret ())"

fun replay :: "('c, 'i, 'o, 'e, 'x) engine \<Rightarrow> ('c, 'i) call list \<Rightarrow> ('e, 'x, unit) act" where
  "replay E [] = ret ()"
| "replay E (c # cs) = act_seq (run_call E c) (replay E cs)"

text \<open>
  The space and time parameter a call list leaves behind, computed on the pair
  (space, time): the abstraction of the engine state that the contract speaks of.
\<close>

fun view_step :: "('c, 'i) call \<Rightarrow> size_t \<times> size_t \<Rightarrow> size_t \<times> size_t" where
  "view_step (Call_set_space n) (s, t) = (n, t)"
| "view_step (Call_set_time n) (s, t) = (s, n)"
| "view_step _ st = st"

fun is_config_call :: "('c, 'i) call \<Rightarrow> bool" where
  "is_config_call (Call_push _) = False"
| "is_config_call Call_pull = False"
| "is_config_call _ = True"

subsection \<open>A keyed counter engine\<close>

text \<open>
  \<open>demo_engine cap\<close>: a key of byte cells, a round counter advanced by every
  pull, outputs the key's byte sum plus the counter. It accepts spaces up to
  \<open>cap\<close> and throws \<open>Space_overflow\<close> above; pulling without an installed
  key throws \<open>Empty_key\<close>.
\<close>

record demo_state =
  d_space :: size_t
  d_time :: size_t
  d_key :: "8 word list"
  d_ctr :: "8 word"

datatype demo_error = Space_overflow size_t | Empty_key

definition demo_pull :: "(demo_state, demo_error, 8 word) act" where
  "demo_pull e = (if d_key e = [] then Thrown Empty_key e
                  else Ret (sum_list (d_key e) + d_ctr e) (e\<lparr>d_ctr := d_ctr e + 1\<rparr>))"

definition demo_engine :: "size_t \<Rightarrow> (8 word, 8 word, 8 word, demo_state, demo_error) engine" where
  "demo_engine cap =
     \<lparr>default_key = [1, 2, 3, 4, 5, 6, 7, 8], default_time = 16,
      eng_set_key = (\<lambda>k. act_modify (\<lambda>e. e\<lparr>d_key := k\<rparr>)),
      eng_set_space = (\<lambda>n e. if cap < n then Thrown (Space_overflow n) e
                             else Ret () (e\<lparr>d_space := n\<rparr>)),
      eng_set_time = (\<lambda>n. act_modify (\<lambda>e. e\<lparr>d_time := n\<rparr>)),
      eng_reset = act_modify (\<lambda>e. e\<lparr>d_key := [], d_ctr := 0\<rparr>),
      eng_push = (\<lambda>b. act_modify (\<lambda>e. e\<lparr>d_ctr := d_ctr e + b\<rparr>)),
      eng_pull = demo_pull\<rparr>"

definition demo_init :: demo_state where
  "demo_init = \<lparr>d_space = 0, d_time = 0, d_key = [], d_ctr = 0\<rparr>"

subsection \<open>Lemmas\<close>

lemma replay_append: "replay E (xs @ ys) = act_seq (replay E xs) (replay E ys)"
  by (induction xs) simp_all

lemma replay_trace_engine: "replay (trace_engine dk dt) cs l = Ret () (l @ cs)"
proof (induction cs arbitrary: l)
  case Nil
  then show ?case by (simp add: act_simps)
next
  case (Cons c cs)
  have step: "run_call (trace_engine dk dt) c l = Ret () (l @ [c])"
    by (cases c) (simp_all add: trace_engine_def record_call_def act_seq_apply act_simps)
  show ?case
    using Cons.IH [of "l @ [c]"] by (simp add: act_seq_apply step)
qed

lemma trace_engine_consts [simp]:
  "default_key (trace_engine dk dt) = dk" "default_time (trace_engine dk dt) = dt"
  by (simp_all add: trace_engine_def)

lemma hook_total_unit: "hook_total h \<Longrightarrow> \<exists>e'. h e = Ret () e'"
  unfolding hook_total_def by (metis is_ret.elims(2) old.unit.exhaust)

lemma hook_keepsD: "hook_keeps obs h \<Longrightarrow> h e = Ret a e' \<Longrightarrow> obs e' = obs e"
  unfolding hook_keeps_def by blast

lemma config_totalD:
  assumes "config_total E"
  shows "\<exists>e'. eng_set_key E k e = Ret () e'" "\<exists>e'. eng_set_space E n e = Ret () e'"
    "\<exists>e'. eng_set_time E n e = Ret () e'" "\<exists>e'. eng_reset E e = Ret () e'"
  using assms unfolding config_total_def by (blast intro: hook_total_unit)+

lemma engine_viewD:
  assumes "engine_view E sp tm"
  shows "eng_set_space E n e = Ret () e' \<Longrightarrow> sp e' = n \<and> tm e' = tm e"
    "eng_set_time E n e = Ret () e' \<Longrightarrow> tm e' = n \<and> sp e' = sp e"
    "eng_set_key E k e = Ret () e' \<Longrightarrow> sp e' = sp e \<and> tm e' = tm e"
    "eng_reset E e = Ret () e' \<Longrightarrow> sp e' = sp e \<and> tm e' = tm e"
    "eng_push E b e = Ret () e' \<Longrightarrow> sp e' = sp e \<and> tm e' = tm e"
    "eng_pull E e = Ret r e' \<Longrightarrow> sp e' = sp e \<and> tm e' = tm e"
  using assms unfolding engine_view_def by (blast dest: hook_keepsD)+

lemma run_call_view:
  assumes "engine_view E sp tm" and "run_call E c e = Ret () e'"
  shows "(sp e', tm e') = view_step c (sp e, tm e)"
proof (cases c)
  case Call_pull
  with assms(2) obtain r e1 where "eng_pull E e = Ret r e1" "e' = e1"
    by (cases "eng_pull E e") (auto simp: act_seq_apply act_simps)
  with Call_pull engine_viewD(6) [OF assms(1)] show ?thesis by simp
qed (use assms engine_viewD [OF assms(1)] in auto)

lemma replay_view:
  "engine_view E sp tm \<Longrightarrow> replay E cs e = Ret () e' \<Longrightarrow>
     (sp e', tm e') = fold view_step cs (sp e, tm e)"
proof (induction cs arbitrary: e)
  case Nil
  then show ?case by (simp add: act_simps)
next
  case (Cons c cs)
  from Cons.prems(2) obtain e1 where c: "run_call E c e = Ret () e1" and cs: "replay E cs e1 = Ret () e'"
    by (cases "run_call E c e") (auto simp: act_seq_apply)
  from run_call_view [OF Cons.prems(1) c] Cons.IH [OF Cons.prems(1) cs] show ?case
    by simp
qed

lemma replay_config_total:
  "config_total E \<Longrightarrow> list_all is_config_call cs \<Longrightarrow> \<exists>e'. replay E cs e = Ret () e'"
proof (induction cs arbitrary: e)
  case Nil
  then show ?case by (simp add: act_simps)
next
  case (Cons c cs)
  have "\<exists>e1. run_call E c e = Ret () e1"
    using Cons.prems by (cases c) (auto dest: config_totalD)
  then obtain e1 where "run_call E c e = Ret () e1" by blast
  with Cons.IH [of e1] Cons.prems show ?case by (auto simp: act_seq_apply)
qed

lemma reset_canonicalD:
  "reset_canonical E sp tm \<Longrightarrow> sp e1 = sp e2 \<Longrightarrow> tm e1 = tm e2 \<Longrightarrow> eng_reset E e1 = eng_reset E e2"
  unfolding reset_canonical_def by blast

lemma demo_engine_consts [simp]:
  "default_key (demo_engine cap) = [1, 2, 3, 4, 5, 6, 7, 8]" "default_time (demo_engine cap) = 16"
  by (simp_all add: demo_engine_def)

lemma demo_no_overflow [simp]: "\<not> (- 1 :: size_t) < n"
  by (simp add: not_less)

lemma demo_engine_contract: "engine_contract (demo_engine (- 1)) d_space d_time"
  unfolding engine_contract_def config_total_def engine_view_def reset_canonical_def
    hook_total_def hook_keeps_def
  by (auto simp: demo_engine_def demo_pull_def act_simps split: if_splits)

end
