(* ===== verification/Machine.thy ===== *)
theory Machine
  imports Engine
begin

text \<open>
  The adapter \<open>chaos::machine<engine>\<close> of src/include/chaos/machine.hh, lines 13-83:
  its one data member \<open>key\<close> (line 16) and the engine base-class sub-object
  (\<open>public virtual engine\<close>, line 13) form the record \<open>machine\<close>. The constructor
  (lines 51-60), \<open>set_key\<close> (62-68), \<open>set_time\<close> (70-72), \<open>set_space\<close> (74-76) and
  \<open>reset\<close> (78-83) are actions on it, each a sequence of the member assignments and
  engine hook calls of its body, in the order of the body; a hook that throws ends
  the member function with the exception and the state reached so far.

  The lemmas characterise every operation by the list of hook calls it makes
  (\<open>replay\<close> of Engine.thy), and from that derive, for the call-recording engine,
  the exact order of the calls, and for every engine meeting the contract, the key,
  space and time an operation leaves behind, the canonical state after \<open>reset\<close>,
  and the behaviour when a hook throws.
\<close>

record ('c, 'e) machine =
  key :: "'c list"
  base :: 'e

definition on_base :: "('e, 'x, 'a) act \<Rightarrow> (('c, 'e) machine, 'x, 'a) act" where
  "on_base f = lift_act base (\<lambda>e m. m\<lparr>base := e\<rparr>) f"

text \<open>\<open>key.size() != 0 ? key : this->__default_key\<close> (lines 54 and 65).\<close>

definition active_key :: "('c, 'i, 'o, 'e, 'x) engine \<Rightarrow> 'c list \<Rightarrow> 'c list" where
  "active_key E k = (if length k \<noteq> 0 then k else default_key E)"

definition set_space :: "('c, 'i, 'o, 'e, 'x) engine \<Rightarrow> size_t \<Rightarrow> (('c, 'e) machine, 'x, unit) act" where
  "set_space E n = on_base (eng_set_space E n)"

definition set_time :: "('c, 'i, 'o, 'e, 'x) engine \<Rightarrow> size_t \<Rightarrow> (('c, 'e) machine, 'x, unit) act" where
  "set_time E n = on_base (eng_set_time E n)"

text \<open>
  \<open>set_key\<close>: the member \<open>key\<close> is assigned the active key, the space is set to its
  size, and then the engine's \<open>__set_key\<close> receives the argument \<open>key\<close>: the
  parameter shadows the member, so the engine is given the caller's key as passed,
  also when it is empty.
\<close>

definition set_key :: "('c, 'i, 'o, 'e, 'x) engine \<Rightarrow> 'c list \<Rightarrow> (('c, 'e) machine, 'x, unit) act" where
  "set_key E k =
     act_seq (act_modify (\<lambda>m. m\<lparr>key := active_key E k\<rparr>))
    (act_seq (act_bind (act_get key) (\<lambda>k'. set_space E (word_of_nat (length k'))))
             (on_base (eng_set_key E k)))"

definition reset :: "('c, 'i, 'o, 'e, 'x) engine \<Rightarrow> (('c, 'e) machine, 'x, unit) act" where
  "reset E =
     act_seq (on_base (eng_reset E))
             (act_bind (act_get key) (\<lambda>k. on_base (eng_set_key E k)))"

text \<open>
  The constructor starts from the engine's default-constructed state \<open>e0\<close> and the
  member \<open>key\<close> default-initialised to the empty vector. It returns the constructed
  object, or the exception of the first hook that throws (no object exists then).
\<close>

definition machine_ctor :: "('c, 'i, 'o, 'e, 'x) engine \<Rightarrow> 'c list \<Rightarrow> 'e \<Rightarrow> ('x, ('c, 'e) machine, unit) outcome" where
  "machine_ctor E k e0 =
     act_seq (act_modify (\<lambda>m. m\<lparr>key := active_key E k\<rparr>))
    (act_seq (act_bind (act_get key) (\<lambda>k'. set_space E (word_of_nat (length k'))))
    (act_seq (set_time E (default_time E))
             (reset E))) \<lparr>key = [], base = e0\<rparr>"

text \<open>The constructor called without argument: the default argument \<open>key = {}\<close> (line 19).\<close>

definition machine_default :: "('c, 'i, 'o, 'e, 'x) engine \<Rightarrow> 'e \<Rightarrow> ('x, ('c, 'e) machine, unit) outcome" where
  "machine_default E e0 = machine_ctor E [] e0"

subsection \<open>The calls each operation makes\<close>

lemma on_base_seq: "on_base (act_seq f g) = act_seq (on_base f) (on_base g)"
  unfolding on_base_def act_seq_def by (rule lift_act_bind) simp_all

lemma on_base_apply [act_simps]:
  "f (base m) = Ret a e \<Longrightarrow> on_base f m = Ret a (m\<lparr>base := e\<rparr>)"
  "f (base m) = Thrown x e \<Longrightarrow> on_base f m = Thrown x (m\<lparr>base := e\<rparr>)"
  "f (base m) = Terminated \<Longrightarrow> on_base f m = Terminated"
  by (simp_all add: on_base_def act_simps)

lemma on_base_cases:
  obtains (ret) a e where "f (base m) = Ret a e" "on_base f m = Ret a (m\<lparr>base := e\<rparr>)"
  | (thrown) x e where "f (base m) = Thrown x e" "on_base f m = Thrown x (m\<lparr>base := e\<rparr>)"
  | (terminated) "f (base m) = Terminated" "on_base f m = Terminated"
  by (cases "f (base m)") (simp_all add: act_simps)

lemma on_base_key_Ret: "on_base f m = Ret a m' \<Longrightarrow> key m' = key m"
  by (cases rule: on_base_cases [where f = f and m = m]) auto

lemma on_base_key_Thrown: "on_base f m = Thrown x m' \<Longrightarrow> key m' = key m"
  by (cases rule: on_base_cases [where f = f and m = m]) auto

lemma on_base_then_get:
  "act_seq (on_base f) (act_bind (act_get key) g) m = act_seq (on_base f) (g (key m)) m"
  by (cases rule: on_base_cases [where f = f and m = m]) (simp_all add: act_seq_apply act_simps)

lemmas machine_defs = set_space_def set_time_def set_key_def reset_def machine_ctor_def

lemma set_key_replay:
  "set_key E k m =
     on_base (replay E [Call_set_space (word_of_nat (length (active_key E k))), Call_set_key k])
       (m\<lparr>key := active_key E k\<rparr>)"
  by (simp add: set_key_def set_space_def on_base_seq act_seq_apply act_bind_apply act_simps)

lemma reset_replay: "reset E m = on_base (replay E [Call_reset, Call_set_key (key m)]) m"
  by (simp add: reset_def on_base_seq on_base_then_get)

lemma set_space_replay: "set_space E n = on_base (replay E [Call_set_space n])"
  by (simp add: set_space_def)

lemma set_time_replay: "set_time E n = on_base (replay E [Call_set_time n])"
  by (simp add: set_time_def)

lemma on_base_seq_keyed:
  assumes "\<And>m. g m = h (key m) m"
  shows "act_seq (on_base f) g m = act_seq (on_base f) (h (key m)) m"
  using assms by (cases rule: on_base_cases [where f = f and m = m]) (simp_all add: act_seq_apply)

lemma reset_keyed: "reset E m = act_seq (on_base (eng_reset E)) (on_base (eng_set_key E (key m))) m"
  by (simp add: reset_def on_base_then_get)

lemma machine_ctor_replay:
  "machine_ctor E k e0 =
     on_base (replay E [Call_set_space (word_of_nat (length (active_key E k))),
                        Call_set_time (default_time E), Call_reset, Call_set_key (active_key E k)])
       \<lparr>key = active_key E k, base = e0\<rparr>"
proof -
  let ?m = "\<lparr>key = active_key E k, base = e0\<rparr>"
  let ?n = "word_of_nat (length (active_key E k)) :: size_t"
  let ?h = "\<lambda>k. act_seq (on_base (eng_reset E)) (on_base (eng_set_key E k))"
  have tail: "\<And>m. act_seq (set_time E (default_time E)) (reset E) m =
      act_seq (on_base (eng_set_time E (default_time E))) (?h (key m)) m"
    unfolding set_time_def by (rule on_base_seq_keyed [where h = ?h], rule reset_keyed)
  have "machine_ctor E k e0 = act_seq (set_space E ?n) (act_seq (set_time E (default_time E)) (reset E)) ?m"
    by (simp add: machine_ctor_def act_seq_apply act_bind_apply act_simps)
  also have "\<dots> = act_seq (on_base (eng_set_space E ?n))
      (act_seq (on_base (eng_set_time E (default_time E))) (?h (key ?m))) ?m"
    unfolding set_space_def
    by (rule on_base_seq_keyed [where h = "\<lambda>k. act_seq (on_base (eng_set_time E (default_time E))) (?h k)"],
        rule tail)
  finally show ?thesis by (simp add: on_base_seq)
qed

lemma on_base_transfer:
  "f (base m1) = g (base m2) \<Longrightarrow> key m1 = key m2 \<Longrightarrow> on_base f m1 = on_base g m2"
  by (cases m1, cases m2) (simp add: on_base_def lift_act_def split: outcome.split)

lemma on_base_trace [simp]:
  "on_base (replay (trace_engine dk dt) cs) m = Ret () (m\<lparr>base := base m @ cs\<rparr>)"
  by (simp add: act_simps replay_trace_engine)

lemma active_key_nonempty: "default_key E \<noteq> [] \<Longrightarrow> active_key E k \<noteq> []"
  by (simp add: active_key_def)

lemma active_key_self [simp]: "k \<noteq> [] \<Longrightarrow> active_key E k = k"
  by (simp add: active_key_def)

lemma active_key_empty [simp]: "active_key E [] = default_key E"
  by (simp add: active_key_def)

text \<open>
  Running a list of configuration calls on the engine of a machine, under the
  contract: it returns, and the space and time are those the calls set.
\<close>

lemma on_base_replay_config:
  assumes "config_total E" "engine_view E sp tm" "list_all is_config_call cs"
  shows "\<exists>m'. on_base (replay E cs) m = Ret () m' \<and> key m' = key m \<and>
           (sp (base m'), tm (base m')) = fold view_step cs (sp (base m), tm (base m))"
proof -
  from replay_config_total [OF assms(1,3)] obtain e' where r: "replay E cs (base m) = Ret () e'"
    by blast
  from replay_view [OF assms(2) r] r show ?thesis
    by (simp add: act_simps)
qed

lemma reset_same_view:
  assumes "reset_canonical E sp tm"
    and "key m1 = key m2" "sp (base m1) = sp (base m2)" "tm (base m1) = tm (base m2)"
  shows "reset E m1 = reset E m2"
proof -
  from assms(3,4) have rs: "eng_reset E (base m1) = eng_reset E (base m2)"
    by (rule reset_canonicalD [OF assms(1)])
  have "replay E [Call_reset, Call_set_key (key m1)] (base m1) =
        replay E [Call_reset, Call_set_key (key m2)] (base m2)"
    unfolding assms(2) replay.simps run_call.simps act_seq_apply rs ..
  then show ?thesis
    unfolding reset_replay using assms(2) by (rule on_base_transfer)
qed

subsection \<open>Construction, key update and reset on a contract-abiding engine\<close>

text \<open>
  C1: construction returns (the configuration hooks do not throw) with the active key
  cached, which is the given key or, for an empty one, the engine's default key, and
  never empty; the space is the size of that key and the time is the engine's
  default time.
\<close>

theorem ctor_configures:
  assumes "engine_contract E sp tm"
  shows "\<exists>m. machine_ctor E k e0 = Ret () m \<and> key m = active_key E k \<and> key m \<noteq> [] \<and>
             sp (base m) = word_of_nat (length (key m)) \<and> tm (base m) = default_time E"
proof -
  from assms have ct: "config_total E" and v: "engine_view E sp tm" and dk: "default_key E \<noteq> []"
    by (simp_all add: engine_contract_def)
  show ?thesis
    using on_base_replay_config [OF ct v, where m = "\<lparr>key = active_key E k, base = e0\<rparr>" and
        cs = "[Call_set_space (word_of_nat (length (active_key E k))), Call_set_time (default_time E),
               Call_reset, Call_set_key (active_key E k)]"]
    by (auto simp: machine_ctor_replay active_key_nonempty [OF dk])
qed

text \<open>
  C2: a key update returns with the active key cached and the space set to its size,
  and leaves the time parameter as it was.
\<close>

theorem set_key_configures:
  assumes "config_total E" and "engine_view E sp tm"
  shows "\<exists>m'. set_key E k m = Ret () m' \<and> key m' = active_key E k \<and>
              sp (base m') = word_of_nat (length (active_key E k)) \<and> tm (base m') = tm (base m)"
  using on_base_replay_config [OF assms, where m = "m\<lparr>key := active_key E k\<rparr>" and
      cs = "[Call_set_space (word_of_nat (length (active_key E k))), Call_set_key k]"]
  by (auto simp: set_key_replay)

text \<open>
  C3: on an engine meeting the contract, \<open>reset\<close> of a machine whose space is the size
  of its (non-empty) key and whose time is the default time yields the same outcome
  as constructing a fresh machine with that key, from any engine state.
\<close>

theorem reset_eq_ctor:
  assumes "engine_contract E sp tm"
    and "key m \<noteq> []" "sp (base m) = word_of_nat (length (key m))" "tm (base m) = default_time E"
  shows "reset E m = machine_ctor E (key m) e0"
proof -
  from assms(1) have ct: "config_total E" and v: "engine_view E sp tm" and rc: "reset_canonical E sp tm"
    by (simp_all add: engine_contract_def)
  let ?n = "word_of_nat (length (key m)) :: size_t"
  let ?xs = "[Call_set_space ?n, Call_set_time (default_time E)]"
  let ?ys = "[Call_reset, Call_set_key (key m)]"
  obtain e2 where e2: "replay E ?xs e0 = Ret () e2"
    using replay_config_total [OF ct, of ?xs e0] by auto
  from replay_view [OF v e2] have "sp e2 = ?n" "tm e2 = default_time E" by simp_all
  with assms(3,4) have rs: "eng_reset E e2 = eng_reset E (base m)"
    by (intro reset_canonicalD [OF rc]) simp_all
  have "replay E (?xs @ ?ys) e0 = replay E ?ys e2"
    by (simp only: replay_append act_seq_apply e2 outcome.case)
  also have "\<dots> = replay E ?ys (base m)"
    by (simp add: act_seq_apply rs)
  finally have "replay E (?xs @ ?ys) e0 = replay E ?ys (base m)" .
  then have "replay E [Call_set_space ?n, Call_set_time (default_time E), Call_reset,
      Call_set_key (key m)] e0 = replay E ?ys (base m)"
    by (simp only: append_Cons append_Nil)
  note eq = this
  show ?thesis
    unfolding reset_replay machine_ctor_replay active_key_self [OF assms(2)]
  proof (rule on_base_transfer)
    show "replay E ?ys (base m) = replay E [Call_set_space ?n, Call_set_time (default_time E),
        Call_reset, Call_set_key (key m)] (base \<lparr>key = key m, base = e0\<rparr>)"
      using eq by (simp only: machine.select_convs)
  qed simp
qed

text \<open>
  C4: \<open>reset\<close> is deterministic in the key, space and time alone: two machines that
  agree on them, however much they were fed and pulled before, are in the same
  state (and the same outcome) after \<open>reset\<close>.
\<close>

theorem reset_deterministic:
  assumes "reset_canonical E sp tm"
    and "key m1 = key m2" "sp (base m1) = sp (base m2)" "tm (base m1) = tm (base m2)"
  shows "reset E m1 = reset E m2"
  using assms by (rule reset_same_view)

subsection \<open>The order of hook calls\<close>

text \<open>
  C5: the constructor makes exactly four hook calls, in this order: set-space with the
  size of the active key, set-time with the default time, reset, and set-key with
  the active key.
\<close>

theorem ctor_call_order:
  "machine_ctor (trace_engine dk dt) k l =
     Ret () \<lparr>key = (if k = [] then dk else k),
             base = l @ [Call_set_space (word_of_nat (length ((if k = [] then dk else k)))),
                         Call_set_time dt, Call_reset, Call_set_key ((if k = [] then dk else k))]\<rparr>"
  by (simp only: machine_ctor_replay on_base_trace) (simp add: active_key_def)

text \<open>
  C6: \<open>reset\<close> first calls the engine's reset, then re-installs the cached key, and
  makes no other call.
\<close>

theorem reset_call_order:
  "reset (trace_engine dk dt) m = Ret () (m\<lparr>base := base m @ [Call_reset, Call_set_key (key m)]\<rparr>)"
  by (simp only: reset_replay on_base_trace)

text \<open>
  C7: \<open>set_key\<close> caches the active key and makes exactly two calls, set-space with
  the active key's size and set-key with the key as the caller passed it: no
  engine reset and no set-time (the asymmetry with construction and reset), and
  an empty argument reaches the engine as the empty key.
\<close>

theorem set_key_call_order:
  "set_key (trace_engine dk dt) k m =
     Ret () (m\<lparr>key := (if k = [] then dk else k),
               base := base m @ [Call_set_space (word_of_nat (length ((if k = [] then dk else k)))),
                                 Call_set_key k]\<rparr>)"
  by (simp only: set_key_replay on_base_trace) (simp add: active_key_def)

text \<open>
  C8: \<open>set_space\<close> and \<open>set_time\<close> are pure pass-through: one call of the
  corresponding hook with the given value, and the cached key untouched.
\<close>

theorem config_pass_through:
  "set_space (trace_engine dk dt) n m = Ret () (m\<lparr>base := base m @ [Call_set_space n]\<rparr>) \<and>
   set_time (trace_engine dk dt) n m = Ret () (m\<lparr>base := base m @ [Call_set_time n]\<rparr>)"
  by (simp only: set_space_replay set_time_replay on_base_trace)

subsection \<open>Failures\<close>

theorem ctor_configures_witness:
  "engine_contract (demo_engine (- 1)) d_space d_time \<and>
   (\<exists>m. machine_ctor (demo_engine (- 1)) [] demo_init = Ret () m \<and>
        key m = [1, 2, 3, 4, 5, 6, 7, 8] \<and> d_space (base m) = 8 \<and> d_time (base m) = 16)"
  using demo_engine_contract ctor_configures [OF demo_engine_contract, of "[]" demo_init]
  by auto

theorem set_key_configures_witness:
  "config_total (demo_engine (- 1)) \<and> engine_view (demo_engine (- 1)) d_space d_time \<and>
   (\<exists>m'. set_key (demo_engine (- 1)) [1, 2, 3, 4] \<lparr>key = [9], base = demo_init\<rparr> = Ret () m' \<and>
         key m' = [1, 2, 3, 4] \<and> d_space (base m') = 4 \<and> d_time (base m') = d_time demo_init)"
proof -
  have ct: "config_total (demo_engine (- 1))" and v: "engine_view (demo_engine (- 1)) d_space d_time"
    using demo_engine_contract by (simp_all add: engine_contract_def)
  show ?thesis
    using ct v set_key_configures [OF ct v, of "[1, 2, 3, 4]" "\<lparr>key = [9], base = demo_init\<rparr>"]
    by simp
qed

theorem reset_eq_ctor_witness:
  "engine_contract (demo_engine (- 1)) d_space d_time \<and>
   key \<lparr>key = [3, 1], base = \<lparr>d_space = 2, d_time = 16, d_key = [9], d_ctr = 77\<rparr>\<rparr> \<noteq> [] \<and>
   reset (demo_engine (- 1)) \<lparr>key = [3, 1], base = \<lparr>d_space = 2, d_time = 16, d_key = [9], d_ctr = 77\<rparr>\<rparr> =
   machine_ctor (demo_engine (- 1)) [3, 1] demo_init"
  using demo_engine_contract
    reset_eq_ctor [OF demo_engine_contract,
      of "\<lparr>key = [3, 1], base = \<lparr>d_space = 2, d_time = 16, d_key = [9], d_ctr = 77\<rparr>\<rparr>" demo_init]
  by simp

theorem reset_deterministic_witness:
  "reset_canonical (demo_engine (- 1)) d_space d_time \<and>
   reset (demo_engine (- 1)) \<lparr>key = [5], base = demo_init\<rparr> =
   reset (demo_engine (- 1)) \<lparr>key = [5], base = demo_init\<lparr>d_key := [7], d_ctr := 9\<rparr>\<rparr>"
proof -
  have rc: "reset_canonical (demo_engine (- 1)) d_space d_time"
    using demo_engine_contract by (simp add: engine_contract_def)
  show ?thesis
    using rc reset_deterministic [OF rc, of "\<lparr>key = [5], base = demo_init\<rparr>"
        "\<lparr>key = [5], base = demo_init\<lparr>d_key := [7], d_ctr := 9\<rparr>\<rparr>"]
    by (simp add: demo_init_def)
qed

subsection \<open>The default argument\<close>

text \<open>
  C23: constructing without an argument (the default \<open>{}\<close>) is the same as
  constructing with the engine's default key; but a key update with \<open>{}\<close> is not
  the same as one with the default key: on the call-recording engine the two
  differ in the key handed to \<open>__set_key\<close>.
\<close>

theorem default_ctor_equiv:
  "machine_default E e0 = machine_ctor E (default_key E) e0 \<and>
   (dk \<noteq> [] \<longrightarrow> set_key (trace_engine dk dt) [] m \<noteq> set_key (trace_engine dk dt) dk m)"
proof
  show "machine_default E e0 = machine_ctor E (default_key E) e0"
    by (simp add: machine_default_def machine_ctor_def active_key_def)
  show "dk \<noteq> [] \<longrightarrow> set_key (trace_engine dk dt) [] m \<noteq> set_key (trace_engine dk dt) dk m"
    by (simp only: set_key_replay on_base_trace) (auto simp: active_key_def dest: arg_cong [where f = base])
qed

theorem default_ctor_equiv_witness:
  "machine_default (demo_engine (- 1)) demo_init = machine_ctor (demo_engine (- 1)) [1, 2, 3, 4, 5, 6, 7, 8] demo_init \<and>
   [1 :: nat] \<noteq> [] \<and> set_key (trace_engine [1 :: nat] 4) [] \<lparr>key = [2], base = []\<rparr> \<noteq>
      set_key (trace_engine [1 :: nat] 4) [1] \<lparr>key = [2], base = [] :: (nat, nat) call list\<rparr>"
  using default_ctor_equiv [of "demo_engine (- 1)" demo_init "[1 :: nat]" 4 "\<lparr>key = [2], base = [] :: (nat, nat) call list\<rparr>"]
  by simp

end
