(* ===== verification/Streaming.thy ===== *)
theory Streaming
  imports Machine
begin

text \<open>
  The streaming operators of \<open>chaos::machine\<close> (src/include/chaos/machine.hh, lines
  36-48): \<open>operator<<\<close> forwards one input block to the engine's \<open>push\<close> and returns
  the machine for chaining (\<open>push_op\<close>); \<open>operator>>\<close> stores the block the
  engine's \<open>pull\<close> produces in the caller's variable (\<open>pull_op\<close>, whose result is
  that block); \<open>operator()\<close> returns the pulled block and is declared \<open>noexcept\<close>,
  so an exception thrown by \<open>pull\<close> ends the program (\<open>call_op\<close>).

  A client's use of one machine is a sequence of public operations, the datatype
  \<open>mop\<close>; \<open>step\<close> runs one and \<open>run\<close> runs a sequence, collecting the blocks
  the pulls deliver and stopping at the first exception, as a chain
  \<open>m << a << b >> x\<close> does. \<open>reachable E m\<close> holds for every machine a client
  can observe: constructed, then changed by operations that returned or threw
  (the object survives an exception of a member function). The lemmas show that
  the cached key is never empty in a reachable state, that the space stays equal
  to the key's size under every operation but \<open>set_space\<close>, that
  \<open>operator()\<close> and \<open>operator>>\<close> agree whenever either returns, that \<open>reset\<close>
  followed by a stream of operations can be replayed with identical outputs.
\<close>

definition push_op :: "('c, 'i, 'o, 'e, 'x) engine \<Rightarrow> 'i \<Rightarrow> (('c, 'e) machine, 'x, unit) act" where
  "push_op E b = on_base (eng_push E b)"

definition pull_op :: "('c, 'i, 'o, 'e, 'x) engine \<Rightarrow> (('c, 'e) machine, 'x, 'o) act" where
  "pull_op E = on_base (eng_pull E)"

definition call_op :: "('c, 'i, 'o, 'e, 'x) engine \<Rightarrow> (('c, 'e) machine, 'x, 'o) act" where
  "call_op E = noexcept (on_base (eng_pull E))"

datatype ('c, 'i) mop =
    Op_set_key "'c list"
  | Op_set_space size_t
  | Op_set_time size_t
  | Op_reset
  | Op_push 'i
  | Op_pull
  | Op_call

fun step :: "('c, 'i, 'o, 'e, 'x) engine \<Rightarrow> ('c, 'i) mop \<Rightarrow> (('c, 'e) machine, 'x, 'o option) act" where
  "step E (Op_set_key k) = act_seq (set_key E k) (ret None)"
| "step E (Op_set_space n) = act_seq (set_space E n) (ret None)"
| "step E (Op_set_time n) = act_seq (set_time E n) (ret None)"
| "step E Op_reset = act_seq (reset E) (ret None)"
| "step E (Op_push b) = act_seq (push_op E b) (ret None)"
| "step E Op_pull = act_bind (pull_op E) (\<lambda>v. ret (Some v))"
| "step E Op_call = act_bind (call_op E) (\<lambda>v. ret (Some v))"

fun cons_opt :: "'a option \<Rightarrow> 'a list \<Rightarrow> 'a list" where
  "cons_opt None vs = vs"
| "cons_opt (Some v) vs = v # vs"

fun run :: "('c, 'i, 'o, 'e, 'x) engine \<Rightarrow> ('c, 'i) mop list \<Rightarrow> (('c, 'e) machine, 'x, 'o list) act" where
  "run E [] = ret []"
| "run E (op # ops) =
     act_bind (step E op) (\<lambda>r. act_bind (run E ops) (\<lambda>vs. ret (cons_opt r vs)))"

inductive reachable :: "('c, 'i, 'o, 'e, 'x) engine \<Rightarrow> ('c, 'e) machine \<Rightarrow> bool" for E where
  constructed: "machine_ctor E k e0 = Ret () m \<Longrightarrow> reachable E m"
| returned: "reachable E m \<Longrightarrow> step E op m = Ret r m' \<Longrightarrow> reachable E m'"
| thrown: "reachable E m \<Longrightarrow> step E op m = Thrown x m' \<Longrightarrow> reachable E m'"

definition space_consistent :: "('e \<Rightarrow> size_t) \<Rightarrow> ('c, 'e) machine \<Rightarrow> bool" where
  "space_consistent sp m \<longleftrightarrow> sp (base m) = word_of_nat (length (key m))"

fun is_set_space :: "('c, 'i) mop \<Rightarrow> bool" where
  "is_set_space (Op_set_space _) = True"
| "is_set_space _ = False"

text \<open>The operations of a stream after \<open>reset\<close>: no reconfiguration.\<close>

fun is_stream_op :: "('c, 'i) mop \<Rightarrow> bool" where
  "is_stream_op Op_reset = True"
| "is_stream_op (Op_push _) = True"
| "is_stream_op Op_pull = True"
| "is_stream_op Op_call = True"
| "is_stream_op _ = False"

subsection \<open>Outcomes of one operation\<close>

lemma cons_opt_append: "cons_opt r vs @ ws = cons_opt r (vs @ ws)"
  by (cases r) simp_all

lemma on_base_Ret_iff: "on_base f m = Ret a m' \<longleftrightarrow> (\<exists>e. f (base m) = Ret a e \<and> m' = m\<lparr>base := e\<rparr>)"
  by (cases rule: on_base_cases [where f = f and m = m]) auto

lemma on_base_Thrown_iff: "on_base f m = Thrown x m' \<longleftrightarrow> (\<exists>e. f (base m) = Thrown x e \<and> m' = m\<lparr>base := e\<rparr>)"
  by (cases rule: on_base_cases [where f = f and m = m]) auto

lemma seq_ret_None_apply:
  "act_seq f (ret None) s = (case f s of Ret _ s' \<Rightarrow> Ret None s' | Thrown x s' \<Rightarrow> Thrown x s'
                              | Terminated \<Rightarrow> Terminated)"
  by (simp add: act_seq_apply ret_def split: outcome.split)

lemma bind_ret_Some_apply:
  "act_bind f (\<lambda>v. ret (Some v)) s = (case f s of Ret v s' \<Rightarrow> Ret (Some v) s'
      | Thrown x s' \<Rightarrow> Thrown x s' | Terminated \<Rightarrow> Terminated)"
  by (simp add: act_bind_apply ret_def split: outcome.split)

lemma noexcept_on_base_cases:
  "noexcept (on_base f) m = (case on_base f m of Thrown _ _ \<Rightarrow> Terminated | r \<Rightarrow> r)"
  by (simp add: noexcept_def)

text \<open>Every outcome state of an operation other than \<open>set_key\<close> keeps the cached key.\<close>

lemma step_key:
  assumes "outcome_state (step E op m) = Some m'"
  shows "key m' = key m \<or> (\<exists>k. key m' = active_key E k)"
proof (cases op)
  case (Op_set_key k)
  with assms show ?thesis
    by (cases rule: on_base_cases [where f = "replay E [Call_set_space (word_of_nat (length (active_key E k))),
          Call_set_key k]" and m = "m\<lparr>key := active_key E k\<rparr>"])
       (auto simp: set_key_replay seq_ret_None_apply)
next
  case Op_reset
  with assms show ?thesis
    by (cases rule: on_base_cases [where f = "replay E [Call_reset, Call_set_key (key m)]" and m = m])
       (auto simp: reset_replay seq_ret_None_apply)
next
  case Op_call
  with assms show ?thesis
    by (cases rule: on_base_cases [where f = "eng_pull E" and m = m])
       (auto simp: call_op_def bind_ret_Some_apply noexcept_on_base_cases)
qed (use assms in \<open>auto simp: set_space_def set_time_def push_op_def pull_op_def seq_ret_None_apply
      bind_ret_Some_apply on_base_Ret_iff on_base_Thrown_iff split: outcome.splits\<close>)

lemma machine_ctor_key: "machine_ctor E k e0 = Ret () m \<Longrightarrow> key m = active_key E k"
  by (auto simp: machine_ctor_replay dest: on_base_key_Ret)

lemma on_base_replay_Ret:
  assumes "engine_view E sp tm" and "on_base (replay E cs) m = Ret () m'"
  shows "key m' = key m \<and> (sp (base m'), tm (base m')) = fold view_step cs (sp (base m), tm (base m))"
  using assms(2) replay_view [OF assms(1)] by (auto simp: on_base_Ret_iff)

lemma seq_ret_None_Ret: "act_seq f (ret None) m = Ret r m' \<Longrightarrow> f m = Ret () m'"
  by (simp add: seq_ret_None_apply split: outcome.splits)

lemma push_op_replay: "push_op E b = on_base (replay E [Call_push b])"
  by (simp add: push_op_def)

lemma call_op_Ret: "call_op E m = Ret v m' \<longleftrightarrow> on_base (eng_pull E) m = Ret v m'"
  by (simp add: call_op_def noexcept_on_base_cases split: outcome.split)

text \<open>The operations of a stream keep the cached key, the space and the time.\<close>

lemma stream_step_keeps:
  assumes "engine_view E sp tm" "is_stream_op op" "step E op m = Ret r m'"
  shows "key m' = key m \<and> sp (base m') = sp (base m) \<and> tm (base m') = tm (base m)"
proof (cases op)
  case Op_reset
  with assms on_base_replay_Ret [OF assms(1), of "[Call_reset, Call_set_key (key m)]" m m'] show ?thesis
    by (auto simp: reset_replay dest: seq_ret_None_Ret)
next
  case (Op_push b)
  with assms on_base_replay_Ret [OF assms(1), of "[Call_push b]" m m'] show ?thesis
    by (auto simp: push_op_replay dest: seq_ret_None_Ret)
next
  case Op_pull
  with assms show ?thesis
    by (auto simp: pull_op_def bind_ret_Some_apply on_base_Ret_iff dest: engine_viewD(6)
             split: outcome.splits)
next
  case Op_call
  with assms show ?thesis
    by (auto simp: bind_ret_Some_apply call_op_Ret on_base_Ret_iff dest: engine_viewD(6)
             split: outcome.splits)
qed (use assms in simp_all)

lemma run_Cons_Ret:
  "run E (op # ops) m = Ret vs m' \<Longrightarrow>
     \<exists>r m1 ws. step E op m = Ret r m1 \<and> run E ops m1 = Ret ws m' \<and> vs = cons_opt r ws"
  by (auto simp: act_bind_apply ret_def split: outcome.splits)

lemma run_stream_keeps:
  "engine_view E sp tm \<Longrightarrow> list_all is_stream_op ops \<Longrightarrow> run E ops m = Ret vs m' \<Longrightarrow>
     key m' = key m \<and> sp (base m') = sp (base m) \<and> tm (base m') = tm (base m)"
proof (induction ops arbitrary: m vs)
  case Nil
  then show ?case by (simp add: ret_def)
next
  case (Cons op ops)
  from run_Cons_Ret [OF Cons.prems(3)] obtain r m1 ws
    where s: "step E op m = Ret r m1" and r: "run E ops m1 = Ret ws m'" by blast
  from stream_step_keeps [OF Cons.prems(1) _ s] Cons.prems(2) Cons.IH [OF Cons.prems(1) _ r] Cons.prems(2)
  show ?case by simp
qed

lemma run_Cons_cong: "step E op s1 = step E op s2 \<Longrightarrow> run E (op # ops) s1 = run E (op # ops) s2"
  by (simp add: act_bind_apply)

subsection \<open>Properties\<close>

text \<open>
  C9: if the engine's default key is non-empty, the cached key of every machine a
  client can observe (after construction and any sequence of operations, also
  ones that threw) is non-empty.
\<close>

theorem reachable_key_nonempty:
  assumes "default_key E \<noteq> []" and "reachable E m"
  shows "key m \<noteq> []"
  using assms(2)
proof induction
  case (constructed k e0 m)
  then show ?case by (simp add: machine_ctor_key active_key_nonempty [OF assms(1)])
next
  case (returned m op r m')
  then have "outcome_state (step E op m) = Some m'" by simp
  with returned.IH show ?case by (auto dest: step_key simp: active_key_nonempty [OF assms(1)])
next
  case (thrown m op x m')
  then have "outcome_state (step E op m) = Some m'" by simp
  with thrown.IH show ?case by (auto dest: step_key simp: active_key_nonempty [OF assms(1)])
qed

text \<open>
  C10: when the engine's pull throws, \<open>operator>>\<close> propagates the exception to the
  caller, but \<open>operator()\<close>, being \<open>noexcept\<close>, ends the program.
\<close>

theorem call_op_terminates:
  assumes "eng_pull E (base m) = Thrown x e"
  shows "pull_op E m = Thrown x (m\<lparr>base := e\<rparr>) \<and> call_op E m = Terminated"
  using assms by (simp add: pull_op_def call_op_def noexcept_on_base_cases act_simps)

text \<open>
  C11: \<open>operator()\<close> returns a block exactly when \<open>operator>>\<close> does, with the same
  block and the same resulting machine.
\<close>

theorem call_op_pull_op_agree: "call_op E m = Ret v m' \<longleftrightarrow> pull_op E m = Ret v m'"
  by (simp add: call_op_Ret pull_op_def)

text \<open>
  C12: on an engine whose hooks respect the space and time parameters, every
  operation other than \<open>set_space\<close> that returns keeps the space equal to the size of
  the cached key.
\<close>

theorem step_space_consistent:
  assumes "engine_view E sp tm" "space_consistent sp m" "\<not> is_set_space op" "step E op m = Ret r m'"
  shows "space_consistent sp m'"
proof (cases op)
  case (Op_set_key k)
  with assms(4) have "set_key E k m = Ret () m'" by (simp add: seq_ret_None_Ret)
  with on_base_replay_Ret [OF assms(1), of "[Call_set_space (word_of_nat (length (active_key E k))),
      Call_set_key k]" "m\<lparr>key := active_key E k\<rparr>" m'] show ?thesis
    by (simp add: set_key_replay space_consistent_def)
next
  case (Op_set_time n)
  with assms(4) have "set_time E n m = Ret () m'" by (simp add: seq_ret_None_Ret)
  with on_base_replay_Ret [OF assms(1), of "[Call_set_time n]" m m'] assms(2) show ?thesis
    by (simp add: set_time_replay space_consistent_def)
qed (use assms stream_step_keeps [OF assms(1) _ assms(4)] in \<open>simp_all add: space_consistent_def\<close>)

text \<open>
  C13: after \<open>reset\<close>, a stream of pushes and pulls that returns can be repeated
  from the state it ended in (\<open>reset\<close> again, the same operations): it delivers the
  same blocks and ends in the same state.
\<close>

theorem reset_stream_repeats:
  assumes "engine_view E sp tm" "reset_canonical E sp tm" "list_all is_stream_op ops"
    and "run E (Op_reset # ops) m = Ret vs m'"
  shows "run E (Op_reset # ops) m' = Ret vs m'"
proof -
  from run_stream_keeps [OF assms(1) _ assms(4)] assms(3)
  have "key m' = key m" "sp (base m') = sp (base m)" "tm (base m') = tm (base m)" by simp_all
  then have "reset E m' = reset E m" by (rule reset_same_view [OF assms(2)])
  then have "run E (Op_reset # ops) m' = run E (Op_reset # ops) m"
    by (intro run_Cons_cong) (simp only: step.simps act_seq_apply)
  with assms(4) show ?thesis by simp
qed

subsection \<open>Witnesses on the keyed counter engine\<close>

lemmas demo_run_simps = demo_engine_def demo_init_def demo_pull_def act_seq_apply act_bind_apply act_simps
  machine_ctor_replay reset_replay set_key_replay push_op_def pull_op_def call_op_def noexcept_def

lemma demo_ctor_123:
  "machine_ctor (demo_engine (- 1)) [1, 2, 3] demo_init = Ret () \<lparr>key = [1, 2, 3 :: 8 word], base = \<lparr>d_space = 3, d_time = 16, d_key = [1, 2, 3], d_ctr = 0\<rparr>\<rparr>"
  by (simp add: demo_run_simps)

theorem reachable_key_nonempty_witness:
  "default_key (demo_engine (- 1)) \<noteq> [] \<and> reachable (demo_engine (- 1)) \<lparr>key = [1, 2, 3 :: 8 word], base = \<lparr>d_space = 3, d_time = 16, d_key = [1, 2, 3], d_ctr = 0\<rparr>\<rparr> \<and> key \<lparr>key = [1, 2, 3 :: 8 word], base = \<lparr>d_space = 3, d_time = 16, d_key = [1, 2, 3], d_ctr = 0\<rparr>\<rparr> \<noteq> []"
proof -
  have r: "reachable (demo_engine (- 1)) \<lparr>key = [1, 2, 3 :: 8 word], base = \<lparr>d_space = 3, d_time = 16, d_key = [1, 2, 3], d_ctr = 0\<rparr>\<rparr>"
    by (rule reachable.constructed [OF demo_ctor_123])
  have d: "default_key (demo_engine (- 1)) \<noteq> []" by simp
  show ?thesis using d r reachable_key_nonempty [OF d r] by simp
qed

theorem call_op_terminates_witness:
  "eng_pull (demo_engine (- 1)) demo_init = Thrown Empty_key demo_init \<and>
   pull_op (demo_engine (- 1)) \<lparr>key = [1], base = demo_init\<rparr> =
     Thrown Empty_key \<lparr>key = [1], base = demo_init\<rparr> \<and>
   call_op (demo_engine (- 1)) \<lparr>key = [1], base = demo_init\<rparr> = Terminated"
proof -
  have h: "eng_pull (demo_engine (- 1)) (base \<lparr>key = [1 :: 8 word], base = demo_init\<rparr>) =
      Thrown Empty_key demo_init"
    by (simp add: demo_engine_def demo_pull_def demo_init_def)
  show ?thesis using h call_op_terminates [OF h] by simp
qed

theorem step_space_consistent_witness:
  "engine_view (demo_engine (- 1)) d_space d_time \<and> space_consistent d_space \<lparr>key = [1, 2, 3 :: 8 word], base = \<lparr>d_space = 3, d_time = 16, d_key = [1, 2, 3], d_ctr = 0\<rparr>\<rparr> \<and>
   \<not> is_set_space (Op_set_key [4, 4] :: (8 word, 8 word) mop) \<and>
   step (demo_engine (- 1)) (Op_set_key [4, 4]) \<lparr>key = [1, 2, 3 :: 8 word], base = \<lparr>d_space = 3, d_time = 16, d_key = [1, 2, 3], d_ctr = 0\<rparr>\<rparr> = Ret None \<lparr>key = [4, 4 :: 8 word], base = \<lparr>d_space = 2, d_time = 16, d_key = [4, 4], d_ctr = 0\<rparr>\<rparr> \<and>
   space_consistent d_space \<lparr>key = [4, 4 :: 8 word], base = \<lparr>d_space = 2, d_time = 16, d_key = [4, 4], d_ctr = 0\<rparr>\<rparr>"
proof -
  have v: "engine_view (demo_engine (- 1)) d_space d_time"
    using demo_engine_contract by (simp add: engine_contract_def)
  have c: "space_consistent d_space \<lparr>key = [1, 2, 3 :: 8 word], base = \<lparr>d_space = 3, d_time = 16, d_key = [1, 2, 3], d_ctr = 0\<rparr>\<rparr>" by (simp add: space_consistent_def)
  have n: "\<not> is_set_space (Op_set_key [4, 4] :: (8 word, 8 word) mop)" by simp
  have st: "step (demo_engine (- 1)) (Op_set_key [4, 4]) \<lparr>key = [1, 2, 3 :: 8 word], base = \<lparr>d_space = 3, d_time = 16, d_key = [1, 2, 3], d_ctr = 0\<rparr>\<rparr> = Ret None \<lparr>key = [4, 4 :: 8 word], base = \<lparr>d_space = 2, d_time = 16, d_key = [4, 4], d_ctr = 0\<rparr>\<rparr>"
    by (simp add: demo_run_simps)
  show ?thesis using v c n st step_space_consistent [OF v c n st] by simp
qed

theorem reset_stream_repeats_witness:
  "engine_view (demo_engine (- 1)) d_space d_time \<and> reset_canonical (demo_engine (- 1)) d_space d_time \<and>
   run (demo_engine (- 1)) [Op_reset, Op_pull, Op_push 5, Op_call] \<lparr>key = [1, 2, 3 :: 8 word], base = \<lparr>d_space = 3, d_time = 16, d_key = [1, 2, 3], d_ctr = 0\<rparr>\<rparr> = Ret [6, 12] \<lparr>key = [1, 2, 3 :: 8 word], base = \<lparr>d_space = 3, d_time = 16, d_key = [1, 2, 3], d_ctr = 7\<rparr>\<rparr> \<and>
   run (demo_engine (- 1)) [Op_reset, Op_pull, Op_push 5, Op_call] \<lparr>key = [1, 2, 3 :: 8 word], base = \<lparr>d_space = 3, d_time = 16, d_key = [1, 2, 3], d_ctr = 7\<rparr>\<rparr> = Ret [6, 12] \<lparr>key = [1, 2, 3 :: 8 word], base = \<lparr>d_space = 3, d_time = 16, d_key = [1, 2, 3], d_ctr = 7\<rparr>\<rparr>"
proof -
  have v: "engine_view (demo_engine (- 1)) d_space d_time"
    and rc: "reset_canonical (demo_engine (- 1)) d_space d_time"
    using demo_engine_contract by (simp_all add: engine_contract_def)
  have l: "list_all is_stream_op [Op_pull, Op_push 5, Op_call :: (8 word, 8 word) mop]" by simp
  have r: "run (demo_engine (- 1)) [Op_reset, Op_pull, Op_push 5, Op_call] \<lparr>key = [1, 2, 3 :: 8 word], base = \<lparr>d_space = 3, d_time = 16, d_key = [1, 2, 3], d_ctr = 0\<rparr>\<rparr> = Ret [6, 12] \<lparr>key = [1, 2, 3 :: 8 word], base = \<lparr>d_space = 3, d_time = 16, d_key = [1, 2, 3], d_ctr = 7\<rparr>\<rparr>"
    by (simp add: demo_run_simps)
  show ?thesis using v rc r reset_stream_repeats [OF v rc l r] by simp
qed

end
