(* ===== verification/Abstract.thy ===== *)
theory Abstract
  imports Streaming
begin

text \<open>
  The adapter's abstract specification (spec sections 3 and 4) and the refinement of
  it by the model of src/include/chaos/machine.hh. The abstract state \<open>adapter\<close>
  holds what the spec says an adapter has: the active key, the space and the time.
  \<open>spec_init\<close> is construction and \<open>spec_step\<close> the effect of each public
  operation: a key update installs the key, or the default key for an empty one, and
  sets the space to its length; space and time updates set their parameter; reset,
  feed and extract leave all three. \<open>abs_machine sp tm\<close> reads the abstract state
  off a machine, through the engine's observations of space and time.

  The lemmas show that every operation that returns moves the abstract state as
  \<open>spec_step\<close> says, that every chain of operations does so as the fold of
  \<open>spec_step\<close>, and that construction yields \<open>spec_init\<close>. On an engine none of
  whose hooks fail, every operation and chain returns, so the refinement applies to
  every chain.
\<close>

record 'c adapter =
  a_key :: "'c list"
  a_space :: size_t
  a_time :: size_t

definition spec_init :: "'c list \<Rightarrow> size_t \<Rightarrow> 'c list \<Rightarrow> 'c adapter" where
  "spec_init dk dt k =
     (let k' = (if k = [] then dk else k) in \<lparr>a_key = k', a_space = word_of_nat (length k'), a_time = dt\<rparr>)"

fun spec_step :: "'c list \<Rightarrow> ('c, 'i) mop \<Rightarrow> 'c adapter \<Rightarrow> 'c adapter" where
  "spec_step dk (Op_set_key k) a =
     (let k' = (if k = [] then dk else k) in a\<lparr>a_key := k', a_space := word_of_nat (length k')\<rparr>)"
| "spec_step dk (Op_set_space n) a = a\<lparr>a_space := n\<rparr>"
| "spec_step dk (Op_set_time n) a = a\<lparr>a_time := n\<rparr>"
| "spec_step dk Op_reset a = a"
| "spec_step dk (Op_push b) a = a"
| "spec_step dk Op_pull a = a"
| "spec_step dk Op_call a = a"

definition abs_machine :: "('e \<Rightarrow> size_t) \<Rightarrow> ('e \<Rightarrow> size_t) \<Rightarrow> ('c, 'e) machine \<Rightarrow> 'c adapter" where
  "abs_machine sp tm m = \<lparr>a_key = key m, a_space = sp (base m), a_time = tm (base m)\<rparr>"

text \<open>An engine none of whose hooks signals a failure.\<close>

definition engine_total :: "('c, 'i, 'o, 'e, 'x) engine \<Rightarrow> bool" where
  "engine_total E \<longleftrightarrow> config_total E \<and> (\<forall>b. hook_total (eng_push E b)) \<and> hook_total (eng_pull E)"

text \<open>
  The keyed counter engine with a pull that never fails (an empty key sums to 0):
  an engine meeting the contract none of whose hooks fails.
\<close>

definition demo_total :: "(8 word, 8 word, 8 word, demo_state, demo_error) engine" where
  "demo_total = (demo_engine (- 1))\<lparr>eng_pull := (\<lambda>e. Ret (sum_list (d_key e) + d_ctr e) (e\<lparr>d_ctr := d_ctr e + 1\<rparr>))\<rparr>"

subsection \<open>The abstraction of one operation\<close>

lemma abs_machine_replay:
  assumes "engine_view E sp tm" and "on_base (replay E cs) m = Ret () m'"
  shows "abs_machine sp tm m' =
           \<lparr>a_key = key m, a_space = fst (fold view_step cs (sp (base m), tm (base m))),
            a_time = snd (fold view_step cs (sp (base m), tm (base m)))\<rparr>"
  using on_base_replay_Ret [OF assms] unfolding abs_machine_def
  by (metis fst_conv snd_conv)

lemma set_key_step_abs:
  assumes v: "engine_view E sp tm" and s: "step E (Op_set_key k) m = Ret r m'"
  shows "abs_machine sp tm m' = spec_step (default_key E) (Op_set_key k) (abs_machine sp tm m)"
proof -
  from s have "set_key E k m = Ret () m'" by (simp only: step.simps) (rule seq_ret_None_Ret)
  then have "on_base (replay E [Call_set_space (word_of_nat (length (active_key E k))), Call_set_key k])
      (m\<lparr>key := active_key E k\<rparr>) = Ret () m'" by (simp only: set_key_replay)
  from abs_machine_replay [OF v this] show ?thesis
    by (simp add: abs_machine_def active_key_def Let_def)
qed

lemma set_space_step_abs:
  assumes v: "engine_view E sp tm" and s: "step E (Op_set_space n) m = Ret r m'"
  shows "abs_machine sp tm m' = spec_step (default_key E) (Op_set_space n) (abs_machine sp tm m)"
proof -
  from s have "set_space E n m = Ret () m'" by (simp only: step.simps) (rule seq_ret_None_Ret)
  then have "on_base (replay E [Call_set_space n]) m = Ret () m'" by (simp only: set_space_replay)
  from abs_machine_replay [OF v this] show ?thesis by (simp add: abs_machine_def)
qed

lemma set_time_step_abs:
  assumes v: "engine_view E sp tm" and s: "step E (Op_set_time n) m = Ret r m'"
  shows "abs_machine sp tm m' = spec_step (default_key E) (Op_set_time n) (abs_machine sp tm m)"
proof -
  from s have "set_time E n m = Ret () m'" by (simp only: step.simps) (rule seq_ret_None_Ret)
  then have "on_base (replay E [Call_set_time n]) m = Ret () m'" by (simp only: set_time_replay)
  from abs_machine_replay [OF v this] show ?thesis by (simp add: abs_machine_def)
qed

lemma stream_step_abs:
  assumes "engine_view E sp tm" "is_stream_op op" "step E op m = Ret r m'"
  shows "abs_machine sp tm m' = spec_step (default_key E) op (abs_machine sp tm m)"
proof -
  from stream_step_keeps [OF assms] have "abs_machine sp tm m' = abs_machine sp tm m"
    by (simp add: abs_machine_def)
  with assms(2) show ?thesis by (cases op) simp_all
qed

lemma step_abs:
  assumes "engine_view E sp tm" "step E op m = Ret r m'"
  shows "abs_machine sp tm m' = spec_step (default_key E) op (abs_machine sp tm m)"
proof (cases "is_stream_op op")
  case True
  with stream_step_abs [OF assms(1) _ assms(2)] show ?thesis by blast
next
  case False
  then consider (k) k where "op = Op_set_key k" | (s) n where "op = Op_set_space n"
    | (t) n where "op = Op_set_time n" by (cases op) simp_all
  then show ?thesis
  proof cases
    case k
    with set_key_step_abs [OF assms(1)] assms(2) show ?thesis by blast
  next
    case s
    with set_space_step_abs [OF assms(1)] assms(2) show ?thesis by blast
  next
    case t
    with set_time_step_abs [OF assms(1)] assms(2) show ?thesis by blast
  qed
qed

text \<open>On an engine none of whose hooks fails, every operation returns.\<close>

lemma hook_total_Ret: "hook_total h \<Longrightarrow> \<exists>a e'. h e = Ret a e'"
  unfolding hook_total_def by (metis is_ret.elims(2))

lemma on_base_total: "\<exists>a e'. f (base m) = Ret a e' \<Longrightarrow> \<exists>a m'. on_base f m = Ret a m'"
  by (auto simp: act_simps)

lemma step_total:
  assumes "engine_total E"
  shows "\<exists>r m'. step E op m = Ret r m'"
proof -
  from assms have ct: "config_total E" and push: "\<And>b. hook_total (eng_push E b)"
    and pull: "hook_total (eng_pull E)" by (simp_all add: engine_total_def)
  have cfg: "\<exists>m'. on_base (replay E cs) m = Ret () m'" if "list_all is_config_call cs" for cs m
    using replay_config_total [OF ct that, of "base m"] by (auto simp: act_simps)
  have ret_None: "\<exists>m'. f m = Ret () m' \<Longrightarrow> \<exists>r m'. act_seq f (ret None) m = Ret r m'" for f :: "(_, _, unit) act"
    by (auto simp: act_seq_apply act_simps)
  have pl: "\<exists>v m'. on_base (eng_pull E) m = Ret v m'"
    by (rule on_base_total, rule hook_total_Ret [OF pull])
  show ?thesis
  proof (cases op)
    case (Op_set_key k)
    then show ?thesis by (simp only: step.simps, intro ret_None) (simp only: set_key_replay, rule cfg, simp)
  next
    case (Op_set_space n)
    then show ?thesis by (simp only: step.simps, intro ret_None) (simp only: set_space_replay, rule cfg, simp)
  next
    case (Op_set_time n)
    then show ?thesis by (simp only: step.simps, intro ret_None) (simp only: set_time_replay, rule cfg, simp)
  next
    case Op_reset
    then show ?thesis by (simp only: step.simps, intro ret_None) (simp only: reset_replay, rule cfg, simp)
  next
    case (Op_push b)
    have "\<exists>a m'. push_op E b m = Ret a m'"
      unfolding push_op_def by (rule on_base_total, rule hook_total_Ret [OF push])
    with Op_push show ?thesis by (simp only: step.simps, intro ret_None) simp
  next
    case Op_pull
    with pl show ?thesis by (auto simp: pull_op_def bind_ret_Some_apply)
  next
    case Op_call
    with pl show ?thesis by (auto simp: bind_ret_Some_apply call_op_Ret [symmetric])
  qed
qed

lemma run_total: "engine_total E \<Longrightarrow> \<exists>vs m'. run E ops m = Ret vs m'"
proof (induction ops arbitrary: m)
  case Nil
  then show ?case by (simp add: ret_def)
next
  case (Cons op ops)
  from step_total [OF Cons.prems] obtain r m1 where s: "step E op m = Ret r m1" by blast
  from Cons.IH [OF Cons.prems] obtain ws m' where "run E ops m1 = Ret ws m'" by blast
  with s show ?case by (auto simp: act_bind_apply ret_def)
qed

lemma run_abs:
  assumes "engine_view E sp tm" and "run E ops m = Ret vs m'"
  shows "abs_machine sp tm m' = fold (spec_step (default_key E)) ops (abs_machine sp tm m)"
  using assms(2)
proof (induction ops arbitrary: m vs)
  case Nil
  then show ?case by (simp add: ret_def)
next
  case (Cons op ops)
  from run_Cons_Ret [OF Cons.prems] obtain r m1 ws
    where s: "step E op m = Ret r m1" and r: "run E ops m1 = Ret ws m'" by blast
  from step_abs [OF assms(1) s] Cons.IH [OF r] show ?case by simp
qed

lemma ctor_abs:
  assumes "engine_contract E sp tm"
  shows "\<exists>m. machine_ctor E k e0 = Ret () m \<and>
             abs_machine sp tm m = spec_init (default_key E) (default_time E) k"
proof -
  from assms have ct: "config_total E" and v: "engine_view E sp tm"
    by (simp_all add: engine_contract_def)
  show ?thesis
    using on_base_replay_config [OF ct v, where m = "\<lparr>key = active_key E k, base = e0\<rparr>" and
        cs = "[Call_set_space (word_of_nat (length (active_key E k))), Call_set_time (default_time E),
               Call_reset, Call_set_key (active_key E k)]"]
    by (auto simp: machine_ctor_replay abs_machine_def spec_init_def active_key_def Let_def)
qed

subsection \<open>Refinement\<close>

text \<open>
  C16: on an engine whose hooks respect the space and time parameters, every chain of
  operations that returns moves the abstract state (key, space, time) exactly as
  the specification's operations do, one after the other.
\<close>

theorem run_refines:
  assumes "engine_view E sp tm" and "run E ops m = Ret vs m'"
  shows "abs_machine sp tm m' = fold (spec_step (default_key E)) ops (abs_machine sp tm m)"
  using assms by (rule run_abs)

text \<open>
  C17: on an engine that meets the contract and none of whose hooks fails, the
  adapter never fails: construction with any key and any chain of operations after
  it return, and the abstract state at the end is that of the specification's
  construction followed by its operations.
\<close>

theorem session_refines:
  assumes "engine_contract E sp tm" and "engine_total E"
  shows "\<exists>m vs m'. machine_ctor E k e0 = Ret () m \<and> run E ops m = Ret vs m' \<and>
           abs_machine sp tm m' = fold (spec_step (default_key E)) ops (spec_init (default_key E) (default_time E) k)"
proof -
  from assms(1) have v: "engine_view E sp tm" by (simp add: engine_contract_def)
  from ctor_abs [OF assms(1)] obtain m where c: "machine_ctor E k e0 = Ret () m"
    and a: "abs_machine sp tm m = spec_init (default_key E) (default_time E) k" by blast
  from run_total [OF assms(2)] obtain vs m' where r: "run E ops m = Ret vs m'" by blast
  from run_abs [OF v r] c r a show ?thesis by auto
qed

subsection \<open>Witnesses\<close>

lemma demo_total_contract: "engine_contract demo_total d_space d_time \<and> engine_total demo_total"
  unfolding engine_contract_def engine_total_def config_total_def engine_view_def reset_canonical_def
    hook_total_def hook_keeps_def
  by (auto simp: demo_total_def demo_engine_def act_simps split: if_splits)

lemmas demo_abs_simps = demo_run_simps set_space_def set_time_def abs_machine_def spec_init_def Let_def

theorem run_refines_witness:
  "engine_view (demo_engine (- 1)) d_space d_time \<and>
   run (demo_engine (- 1)) [Op_pull, Op_set_key [10], Op_set_time 5]
     \<lparr>key = [1, 2, 3 :: 8 word], base = \<lparr>d_space = 3, d_time = 16, d_key = [1, 2, 3], d_ctr = 0\<rparr>\<rparr> =
     Ret [6] \<lparr>key = [10], base = \<lparr>d_space = 1, d_time = 5, d_key = [10], d_ctr = 1\<rparr>\<rparr> \<and>
   abs_machine d_space d_time \<lparr>key = [10 :: 8 word], base = \<lparr>d_space = 1, d_time = 5, d_key = [10], d_ctr = 1\<rparr>\<rparr> =
     fold (spec_step [1, 2, 3, 4, 5, 6, 7, 8]) [Op_pull, Op_set_key [10], Op_set_time 5 :: (8 word, 8 word) mop]
       (abs_machine d_space d_time \<lparr>key = [1, 2, 3 :: 8 word], base = \<lparr>d_space = 3, d_time = 16, d_key = [1, 2, 3], d_ctr = 0\<rparr>\<rparr>)"
proof -
  have v: "engine_view (demo_engine (- 1)) d_space d_time"
    using demo_engine_contract by (simp add: engine_contract_def)
  have r: "run (demo_engine (- 1)) [Op_pull, Op_set_key [10], Op_set_time 5]
     \<lparr>key = [1, 2, 3 :: 8 word], base = \<lparr>d_space = 3, d_time = 16, d_key = [1, 2, 3], d_ctr = 0\<rparr>\<rparr> =
     Ret [6] \<lparr>key = [10], base = \<lparr>d_space = 1, d_time = 5, d_key = [10], d_ctr = 1\<rparr>\<rparr>"
    by (simp add: demo_abs_simps)
  show ?thesis using v r run_refines [OF v r] by simp
qed

theorem session_refines_witness:
  "engine_contract demo_total d_space d_time \<and> engine_total demo_total \<and>
   (\<exists>m vs m'. machine_ctor demo_total [] demo_init = Ret () m \<and>
      run demo_total [Op_call, Op_set_key [7], Op_pull] m = Ret vs m' \<and>
      abs_machine d_space d_time m' =
        fold (spec_step [1, 2, 3, 4, 5, 6, 7, 8]) [Op_call, Op_set_key [7], Op_pull]
          (spec_init [1, 2, 3, 4, 5, 6, 7, 8] 16 []))"
proof -
  have c: "engine_contract demo_total d_space d_time" and t: "engine_total demo_total"
    using demo_total_contract by simp_all
  have "default_key demo_total = [1, 2, 3, 4, 5, 6, 7, 8]" "default_time demo_total = 16"
    by (simp_all add: demo_total_def)
  with c t session_refines [OF c t, of "[]" demo_init "[Op_call, Op_set_key [7], Op_pull]"]
  show ?thesis by simp
qed

end
