(* ===== verification/Faults.thy ===== *)
theory Faults
  imports Streaming
begin

text \<open>
  Failure behaviour of \<open>chaos::machine\<close> (src/include/chaos/machine.hh). The adapter
  has no \<open>try\<close>, no \<open>catch\<close> and no \<open>throw\<close> of its own: an exception of an engine
  hook leaves the member function at once, with the assignments made so far (spec
  section 7: pass-through, no wrapping, no retry). \<open>faulty_engine dk dt bad\<close> is
  the call-recording engine of Engine.thy in which every hook call \<open>c\<close> with
  \<open>bad c\<close> is recorded and then throws \<open>c\<close> itself, so that the exception names the
  hook that failed. The lemmas show that every exception that escapes an operation
  or a chain of operations is one an engine hook threw, unchanged, and never one of
  \<open>operator()\<close>; that construction stops at the first failing hook, after exactly
  the calls before it; and how \<open>reset\<close> fails at either of its two hooks.
\<close>

definition faulty_call :: "(('c, 'i) call \<Rightarrow> bool) \<Rightarrow> ('c, 'i) call \<Rightarrow> (('c, 'i) call list, ('c, 'i) call, unit) act" where
  "faulty_call bad c = (\<lambda>l. if bad c then Thrown c (l @ [c]) else Ret () (l @ [c]))"

definition faulty_engine :: "'c list \<Rightarrow> size_t \<Rightarrow> (('c, 'i) call \<Rightarrow> bool) \<Rightarrow>
    ('c, 'i, nat, ('c, 'i) call list, ('c, 'i) call) engine" where
  "faulty_engine dk dt bad =
     \<lparr>default_key = dk, default_time = dt,
      eng_set_key = (\<lambda>k. faulty_call bad (Call_set_key k)),
      eng_set_space = (\<lambda>n. faulty_call bad (Call_set_space n)),
      eng_set_time = (\<lambda>n. faulty_call bad (Call_set_time n)),
      eng_reset = faulty_call bad Call_reset,
      eng_push = (\<lambda>b. faulty_call bad (Call_push b)),
      eng_pull = (\<lambda>l. if bad Call_pull then Thrown Call_pull (l @ [Call_pull])
                      else Ret (length l) (l @ [Call_pull]))\<rparr>"

text \<open>The hook calls of construction, in order (lines 54 to 59).\<close>

definition ctor_calls :: "('c, 'i, 'o, 'e, 'x) engine \<Rightarrow> 'c list \<Rightarrow> ('c, 'i) call list" where
  "ctor_calls E k =
     [Call_set_space (word_of_nat (length (active_key E k))), Call_set_time (default_time E),
      Call_reset, Call_set_key (active_key E k)]"

subsection \<open>Exceptions come from the hooks\<close>

lemma replay_Thrown_hook:
  "replay E cs e = Thrown x e' \<Longrightarrow> \<exists>c \<in> set cs. \<exists>e1. run_call E c e1 = Thrown x e'"
proof (induction cs arbitrary: e)
  case Nil
  then show ?case by (simp add: act_simps)
next
  case (Cons c cs)
  show ?case
  proof (cases "run_call E c e")
    case (Ret a e1)
    with Cons.prems have "replay E cs e1 = Thrown x e'" by (simp add: act_seq_apply)
    with Cons.IH show ?thesis by auto
  next
    case (Thrown y e1)
    with Cons.prems show ?thesis by (auto simp: act_seq_apply)
  qed (use Cons.prems in \<open>simp add: act_seq_apply\<close>)
qed

lemma on_base_replay_Thrown:
  assumes "on_base (replay E cs) m = Thrown x m'"
  shows "\<exists>c e1. run_call E c e1 = Thrown x (base m')"
proof -
  from assms obtain e where "replay E cs (base m) = Thrown x e" "m' = m\<lparr>base := e\<rparr>"
    by (auto simp: on_base_Thrown_iff)
  with replay_Thrown_hook show ?thesis by fastforce
qed

lemma act_seq_ret_Thrown: "act_seq f (ret r) m = Thrown x m' \<Longrightarrow> f m = Thrown x m'"
  by (simp add: act_seq_apply act_simps split: outcome.splits)

lemma step_Thrown_hook:
  assumes "step E op m = Thrown x m'"
  shows "op \<noteq> Op_call \<and> (\<exists>c e1. run_call E c e1 = Thrown x (base m'))"
proof (cases op)
  case (Op_set_key k)
  with assms have "set_key E k m = Thrown x m'" by (simp only: step.simps) (rule act_seq_ret_Thrown)
  from on_base_replay_Thrown [OF this [unfolded set_key_replay]] Op_set_key show ?thesis by simp
next
  case (Op_set_space n)
  with assms have "set_space E n m = Thrown x m'" by (simp only: step.simps) (rule act_seq_ret_Thrown)
  from on_base_replay_Thrown [OF this [unfolded set_space_replay]] Op_set_space show ?thesis by simp
next
  case (Op_set_time n)
  with assms have "set_time E n m = Thrown x m'" by (simp only: step.simps) (rule act_seq_ret_Thrown)
  from on_base_replay_Thrown [OF this [unfolded set_time_replay]] Op_set_time show ?thesis by simp
next
  case Op_reset
  with assms have "reset E m = Thrown x m'" by (simp only: step.simps) (rule act_seq_ret_Thrown)
  from on_base_replay_Thrown [OF this [unfolded reset_replay]] Op_reset show ?thesis by simp
next
  case (Op_push b)
  with assms have "push_op E b m = Thrown x m'" by (simp only: step.simps) (rule act_seq_ret_Thrown)
  from on_base_replay_Thrown [OF this [unfolded push_op_replay]] Op_push show ?thesis by simp
next
  case Op_pull
  with assms obtain e where "eng_pull E (base m) = Thrown x e" "base m' = e"
    by (auto simp: pull_op_def bind_ret_Some_apply on_base_Thrown_iff split: outcome.splits)
  then have "run_call E Call_pull (base m) = Thrown x (base m')" by (simp add: act_seq_apply)
  with Op_pull show ?thesis by blast
next
  case Op_call
  with assms show ?thesis
    by (auto simp: bind_ret_Some_apply call_op_def noexcept_def split: outcome.splits)
qed

lemma run_Thrown_hook:
  "run E ops m = Thrown x m' \<Longrightarrow> \<exists>c e1. run_call E c e1 = Thrown x (base m')"
proof (induction ops arbitrary: m)
  case Nil
  then show ?case by (simp add: ret_def)
next
  case (Cons op ops)
  show ?case
  proof (cases "step E op m")
    case (Ret r m1)
    with Cons.prems have "act_bind (run E ops) (\<lambda>vs. ret (cons_opt r vs)) m1 = Thrown x m'"
      by (simp add: act_bind_apply)
    then have "run E ops m1 = Thrown x m'" by (simp add: act_bind_apply ret_def split: outcome.splits)
    then show ?thesis by (rule Cons.IH)
  next
    case (Thrown y m1)
    with Cons.prems have "step E op m = Thrown x m'" by (simp add: act_bind_apply)
    then show ?thesis by (blast dest: step_Thrown_hook)
  qed (use Cons.prems in \<open>simp add: act_bind_apply\<close>)
qed

subsection \<open>Replaying calls on the failing engine\<close>

lemma machine_base_update_eq:
  "(m' = (m :: ('c, 'e) machine)\<lparr>base := e\<rparr>) \<longleftrightarrow> key m' = key m \<and> base m' = e"
  by (cases m, cases m') auto

lemma run_call_faulty: "run_call (faulty_engine dk dt bad) c = faulty_call bad c"
  by (cases c) (simp_all add: faulty_engine_def faulty_call_def act_seq_apply ret_def fun_eq_iff)

lemma replay_faulty:
  "replay (faulty_engine dk dt bad) cs l =
     (case dropWhile (\<lambda>c. \<not> bad c) cs of
        [] \<Rightarrow> Ret () (l @ cs)
      | c # _ \<Rightarrow> Thrown c (l @ takeWhile (\<lambda>c. \<not> bad c) cs @ [c]))"
proof (induction cs arbitrary: l)
  case Nil
  then show ?case by (simp add: ret_def)
next
  case (Cons c cs)
  then show ?case
    by (simp add: act_seq_apply run_call_faulty faulty_call_def del: dropWhile_eq_Nil_conv split: list.split)
qed

lemma faulty_engine_consts [simp]:
  "default_key (faulty_engine dk dt bad) = dk" "default_time (faulty_engine dk dt bad) = dt"
  by (simp_all add: faulty_engine_def)

subsection \<open>Operations of two hook calls\<close>

text \<open>
  \<open>set_key\<close> and \<open>reset\<close> each end in two hook calls on the engine. Such a pair
  throws exactly when the first hook throws, or the first returns and the second
  throws; the member \<open>key\<close> is left as it was before the pair.
\<close>

lemma two_hooks_Thrown_iff:
  "act_seq (on_base f) (on_base g) m = Thrown x m' \<longleftrightarrow>
     key m' = key m \<and>
     (f (base m) = Thrown x (base m') \<or> (\<exists>e1. f (base m) = Ret () e1 \<and> g e1 = Thrown x (base m')))"
proof (cases rule: on_base_cases [where f = f and m = m])
  case (ret a e)
  then show ?thesis by (auto simp: act_seq_apply on_base_Thrown_iff machine_base_update_eq)
next
  case (thrown y e)
  then show ?thesis by (auto simp: act_seq_apply machine_base_update_eq)
next
  case terminated
  then show ?thesis by (simp add: act_seq_apply)
qed

lemma set_key_keyed:
  "set_key E k m =
     act_seq (on_base (eng_set_space E (word_of_nat (length (active_key E k)))))
             (on_base (eng_set_key E k)) (m\<lparr>key := active_key E k\<rparr>)"
  by (simp add: set_key_replay on_base_seq)

subsection \<open>Ending the program\<close>

lemma replay_Terminated_hook:
  "replay E cs e = Terminated \<Longrightarrow> \<exists>c e1. run_call E c e1 = Terminated"
proof (induction cs arbitrary: e)
  case Nil
  then show ?case by (simp add: act_simps)
next
  case (Cons c cs)
  then show ?case by (cases "run_call E c e") (auto simp: act_seq_apply)
qed

lemma on_base_Terminated_iff: "on_base f m = Terminated \<longleftrightarrow> f (base m) = Terminated"
  by (cases rule: on_base_cases [where f = f and m = m]) simp_all

lemma act_seq_ret_Terminated: "act_seq f (ret r) m = Terminated \<Longrightarrow> f m = Terminated"
  by (simp add: act_seq_apply act_simps split: outcome.splits)

text \<open>
  On an engine none of whose hooks ends the program itself, the only operation
  that ends it is \<open>operator()\<close>, and only when the engine's pull throws.
\<close>

lemma step_Terminated:
  assumes nt: "\<forall>c e. run_call E c e \<noteq> Terminated" and s: "step E op m = Terminated"
  shows "op = Op_call \<and> (\<exists>x e. eng_pull E (base m) = Thrown x e)"
proof (cases op)
  case Op_call
  have "\<not> eng_pull E (base m) = Terminated"
    using nt [rule_format, of Call_pull "base m"] by (auto simp: act_seq_apply)
  with Op_call s show ?thesis
    by (cases rule: on_base_cases [where f = "eng_pull E" and m = m])
       (auto simp: call_op_def noexcept_def bind_ret_Some_apply)
next
  case Op_pull
  with s nt [rule_format, of Call_pull "base m"] show ?thesis
    by (auto simp: pull_op_def bind_ret_Some_apply on_base_Terminated_iff act_seq_apply split: outcome.splits)
qed (use s nt in \<open>auto dest!: act_seq_ret_Terminated replay_Terminated_hook
       simp: set_key_replay set_space_replay set_time_replay reset_replay push_op_replay on_base_Terminated_iff
       simp del: replay.simps\<close>)

subsection \<open>Properties\<close>

text \<open>
  C18: the adapter raises no exception of its own (spec section 7): every exception
  that escapes a chain of operations is one that an engine hook threw, unchanged,
  and the machine's engine is left in the state in which that hook threw.
\<close>

theorem run_exception_from_hook:
  assumes "run E ops m = Thrown x m'"
  shows "\<exists>c e1. run_call E c e1 = Thrown x (base m')"
  using assms by (rule run_Thrown_hook)

text \<open>
  C19: construction makes its four hook calls in order and stops at the first one
  that fails: the constructor then throws that hook's exception, the engine has
  received exactly the calls up to and including the failing one, and no later
  hook is called; when none fails, construction returns after all four.
\<close>

theorem ctor_stops_at_failing_hook:
  "machine_ctor (faulty_engine dk dt bad) k l =
     (case dropWhile (\<lambda>c. \<not> bad c) (ctor_calls (faulty_engine dk dt bad) k) of
        [] \<Rightarrow> Ret () \<lparr>key = active_key (faulty_engine dk dt bad) k,
                       base = l @ ctor_calls (faulty_engine dk dt bad) k\<rparr>
      | c # _ \<Rightarrow> Thrown c \<lparr>key = active_key (faulty_engine dk dt bad) k,
                  base = l @ takeWhile (\<lambda>c. \<not> bad c) (ctor_calls (faulty_engine dk dt bad) k) @ [c]\<rparr>)"
  unfolding machine_ctor_replay ctor_calls_def [symmetric]
  by (simp add: on_base_def lift_act_def replay_faulty del: dropWhile_eq_Nil_conv split: list.split)

text \<open>
  C20: \<open>reset\<close> throws exactly when one of its two hooks throws, with that
  exception and the cached key unchanged: either the engine's reset fails (and the
  key is not re-installed), or the reset succeeds and re-installing the cached key
  fails, which leaves the engine reset but without the key.
\<close>

theorem reset_exception:
  "reset E m = Thrown x m' \<longleftrightarrow>
     key m' = key m \<and>
     (eng_reset E (base m) = Thrown x (base m') \<or>
      (\<exists>e1. eng_reset E (base m) = Ret () e1 \<and> eng_set_key E (key m) e1 = Thrown x (base m')))"
  unfolding reset_keyed by (rule two_hooks_Thrown_iff)

text \<open>
  C24: \<open>set_key\<close> throws exactly when one of its two hooks throws, with that
  exception, and always with the new active key already cached: either set-space
  fails (the engine keeps its old space and key), or set-space succeeds and
  \<open>__set_key\<close> fails, which leaves the engine with the new space but the old key.
\<close>

theorem set_key_exception:
  "set_key E k m = Thrown x m' \<longleftrightarrow>
     key m' = active_key E k \<and>
     (eng_set_space E (word_of_nat (length (active_key E k))) (base m) = Thrown x (base m') \<or>
      (\<exists>e1. eng_set_space E (word_of_nat (length (active_key E k))) (base m) = Ret () e1 \<and>
            eng_set_key E k e1 = Thrown x (base m')))"
  unfolding set_key_keyed two_hooks_Thrown_iff by simp

text \<open>
  C25: on an engine none of whose hooks ends the program itself, a chain of
  operations ends the program only at an \<open>operator()\<close> whose pull throws: the
  chain is some prefix that returns, then \<open>operator()\<close>, on the state in which
  the engine's pull throws.
\<close>

theorem run_terminates_only_at_call:
  assumes nt: "\<forall>c e. run_call E c e \<noteq> Terminated" and r: "run E ops m = Terminated"
  shows "\<exists>pre post vs m1 x e. ops = pre @ Op_call # post \<and> run E pre m = Ret vs m1 \<and>
           eng_pull E (base m1) = Thrown x e"
  using r
proof (induction ops arbitrary: m)
  case Nil
  then show ?case by (simp add: ret_def)
next
  case (Cons op ops)
  show ?case
  proof (cases "step E op m")
    case (Ret r m1)
    with Cons.prems have "run E ops m1 = Terminated"
      by (simp add: act_bind_apply ret_def split: outcome.splits)
    from Cons.IH [OF this] obtain pre post vs m2 x e where
      o: "ops = pre @ Op_call # post" and p: "run E pre m1 = Ret vs m2" and t: "eng_pull E (base m2) = Thrown x e"
      by blast
    from Ret p have "run E (op # pre) m = Ret (cons_opt r vs) m2" by (simp add: act_bind_apply ret_def)
    with o t show ?thesis by (metis append_Cons)
  next
    case Terminated
    from step_Terminated [OF nt Terminated] obtain x e where "op = Op_call" "eng_pull E (base m) = Thrown x e"
      by blast
    then show ?thesis by (metis append_Nil run.simps(1) ret_def)
  qed (use Cons.prems in \<open>simp add: act_bind_apply\<close>)
qed

subsection \<open>Witnesses\<close>

theorem run_exception_from_hook_witness:
  "run (demo_engine 2) [Op_pull, Op_set_key [1, 2, 3]]
     \<lparr>key = [1], base = \<lparr>d_space = 1, d_time = 16, d_key = [1], d_ctr = 0\<rparr>\<rparr> =
     Thrown (Space_overflow 3) \<lparr>key = [1, 2, 3], base = \<lparr>d_space = 1, d_time = 16, d_key = [1], d_ctr = 1\<rparr>\<rparr> \<and>
   (\<exists>c e1. run_call (demo_engine 2) c e1 = Thrown (Space_overflow 3) \<lparr>d_space = 1, d_time = 16, d_key = [1], d_ctr = 1\<rparr>)"
proof -
  have r: "run (demo_engine 2) [Op_pull, Op_set_key [1, 2, 3]]
     \<lparr>key = [1], base = \<lparr>d_space = 1, d_time = 16, d_key = [1], d_ctr = 0\<rparr>\<rparr> =
     Thrown (Space_overflow 3) \<lparr>key = [1, 2, 3], base = \<lparr>d_space = 1, d_time = 16, d_key = [1], d_ctr = 1\<rparr>\<rparr>"
    by (simp add: demo_run_simps set_space_def)
  show ?thesis using r run_exception_from_hook [OF r] by simp
qed

theorem ctor_stops_at_failing_hook_witness:
  "machine_ctor (faulty_engine [1, 2] 9 (\<lambda>c :: (nat, nat) call. c = Call_reset)) [5] [] =
     Thrown Call_reset \<lparr>key = [5], base = [Call_set_space 1, Call_set_time 9, Call_reset]\<rparr>"
  using ctor_stops_at_failing_hook [of "[1, 2]" 9 "\<lambda>c :: (nat, nat) call. c = Call_reset" "[5]" "[]"]
  by (simp add: ctor_calls_def)

theorem reset_exception_witness:
  "reset (faulty_engine [1, 2] 9 (\<lambda>c :: (nat, nat) call. c = Call_set_key [5])) \<lparr>key = [5], base = []\<rparr> =
     Thrown (Call_set_key [5]) \<lparr>key = [5], base = [Call_reset, Call_set_key [5]]\<rparr> \<and>
   eng_reset (faulty_engine [1, 2] 9 (\<lambda>c :: (nat, nat) call. c = Call_set_key [5])) [] = Ret () [Call_reset] \<and>
   eng_set_key (faulty_engine [1, 2] 9 (\<lambda>c :: (nat, nat) call. c = Call_set_key [5])) [5] [Call_reset] =
     Thrown (Call_set_key [5]) [Call_reset, Call_set_key [5]]"
proof -
  have h1: "eng_reset (faulty_engine [1, 2] 9 (\<lambda>c :: (nat, nat) call. c = Call_set_key [5])) [] = Ret () [Call_reset]"
    and h2: "eng_set_key (faulty_engine [1, 2] 9 (\<lambda>c :: (nat, nat) call. c = Call_set_key [5])) [5] [Call_reset] =
      Thrown (Call_set_key [5]) [Call_reset, Call_set_key [5]]"
    by (simp_all add: faulty_engine_def faulty_call_def)
  show ?thesis
    using h1 h2 reset_exception [of "faulty_engine [1, 2] 9 (\<lambda>c :: (nat, nat) call. c = Call_set_key [5])"
        "\<lparr>key = [5], base = []\<rparr>" "Call_set_key [5]" "\<lparr>key = [5], base = [Call_reset, Call_set_key [5]]\<rparr>"]
    by simp
qed


lemma demo_no_terminate: "\<forall>c e. run_call (demo_engine cap) c e \<noteq> Terminated"
proof (intro allI)
  fix c e
  show "run_call (demo_engine cap) c e \<noteq> Terminated"
    by (cases c) (simp_all add: demo_engine_def demo_pull_def act_seq_apply act_simps)
qed

theorem set_key_exception_witness:
  "set_key (faulty_engine [1, 2] 9 (\<lambda>c :: (nat, nat) call. c = Call_set_key [7])) [7] \<lparr>key = [2], base = []\<rparr> =
     Thrown (Call_set_key [7]) \<lparr>key = [7], base = [Call_set_space 1, Call_set_key [7]]\<rparr> \<and>
   eng_set_space (faulty_engine [1, 2] 9 (\<lambda>c :: (nat, nat) call. c = Call_set_key [7])) 1 [] = Ret () [Call_set_space 1] \<and>
   eng_set_key (faulty_engine [1, 2] 9 (\<lambda>c :: (nat, nat) call. c = Call_set_key [7])) [7] [Call_set_space 1] =
     Thrown (Call_set_key [7]) [Call_set_space 1, Call_set_key [7]]"
proof -
  have h1: "eng_set_space (faulty_engine [1, 2] 9 (\<lambda>c :: (nat, nat) call. c = Call_set_key [7])) 1 [] = Ret () [Call_set_space 1]"
    and h2: "eng_set_key (faulty_engine [1, 2] 9 (\<lambda>c :: (nat, nat) call. c = Call_set_key [7])) [7] [Call_set_space 1] =
      Thrown (Call_set_key [7]) [Call_set_space 1, Call_set_key [7]]"
    by (simp_all add: faulty_engine_def faulty_call_def)
  show ?thesis
    using h1 h2 set_key_exception [of "faulty_engine [1, 2] 9 (\<lambda>c :: (nat, nat) call. c = Call_set_key [7])"
        "[7]" "\<lparr>key = [2], base = []\<rparr>" "Call_set_key [7]" "\<lparr>key = [7], base = [Call_set_space 1, Call_set_key [7]]\<rparr>"]
    by (simp add: active_key_def)
qed

theorem run_terminates_only_at_call_witness:
  "(\<forall>c e. run_call (demo_engine (- 1)) c e \<noteq> Terminated) \<and>
   run (demo_engine (- 1)) [Op_pull, Op_set_key [], Op_call, Op_pull]
     \<lparr>key = [1, 2, 3 :: 8 word], base = \<lparr>d_space = 3, d_time = 16, d_key = [1, 2, 3], d_ctr = 0\<rparr>\<rparr> = Terminated \<and>
   (\<exists>pre post vs m1 x e. [Op_pull, Op_set_key [], Op_call, Op_pull] = pre @ Op_call # post \<and>
      run (demo_engine (- 1)) pre \<lparr>key = [1, 2, 3 :: 8 word], base = \<lparr>d_space = 3, d_time = 16, d_key = [1, 2, 3], d_ctr = 0\<rparr>\<rparr> = Ret vs m1 \<and>
      eng_pull (demo_engine (- 1)) (base m1) = Thrown x e)"
proof -
  have nt: "\<forall>c e. run_call (demo_engine (- 1)) c e \<noteq> Terminated" by (rule demo_no_terminate)
  have r: "run (demo_engine (- 1)) [Op_pull, Op_set_key [], Op_call, Op_pull]
     \<lparr>key = [1, 2, 3 :: 8 word], base = \<lparr>d_space = 3, d_time = 16, d_key = [1, 2, 3], d_ctr = 0\<rparr>\<rparr> = Terminated"
    by (simp add: demo_run_simps)
  show ?thesis using nt r run_terminates_only_at_call [OF nt r] by blast
qed

end
