(* ===== verification/KeyInstall.thy ===== *)
theory KeyInstall
  imports Streaming
begin

text \<open>
  Which key the engine is keyed with. Spec section 6 says that the engine's
  install-key hook replaces the keyed state, and section 3 (invariant 3) that the
  adapter keeps its active key so that it can re-install it. \<open>key_view E ik\<close>
  states this of an observation \<open>ik\<close> of the engine state, the key last installed:
  \<open>__set_key(k)\<close> makes it \<open>k\<close>, and set-space, set-time, push and pull leave
  it. Nothing is required of \<open>__reset\<close>: after it the key is not guaranteed
  installed. \<open>key_installed ik m\<close> holds when the engine of \<open>m\<close> is keyed with the
  machine's cached key.

  The lemmas show that construction establishes \<open>key_installed\<close>, that \<open>reset\<close>
  re-establishes it from any state, and that every operation preserves it except a
  key update with the empty key. That one breaks it on every engine: \<open>set_key\<close>
  caches the default key but passes its argument, the empty key, to
  \<open>__set_key\<close> (src/include/chaos/machine.hh, line 67).
\<close>

definition key_view :: "('c, 'i, 'o, 'e, 'x) engine \<Rightarrow> ('e \<Rightarrow> 'c list) \<Rightarrow> bool" where
  "key_view E ik \<longleftrightarrow>
     (\<forall>k e e'. eng_set_key E k e = Ret () e' \<longrightarrow> ik e' = k) \<and>
     (\<forall>n. hook_keeps ik (eng_set_space E n)) \<and> (\<forall>n. hook_keeps ik (eng_set_time E n)) \<and>
     (\<forall>b. hook_keeps ik (eng_push E b)) \<and> hook_keeps ik (eng_pull E)"

definition key_installed :: "('e \<Rightarrow> 'c list) \<Rightarrow> ('c, 'e) machine \<Rightarrow> bool" where
  "key_installed ik m \<longleftrightarrow> ik (base m) = key m"

subsection \<open>The installed key after the calls of an operation\<close>

lemma key_viewD:
  assumes "key_view E ik"
  shows "eng_set_key E k e = Ret () e' \<Longrightarrow> ik e' = k"
    "eng_set_space E n e = Ret () e' \<Longrightarrow> ik e' = ik e"
    "eng_set_time E n e = Ret () e' \<Longrightarrow> ik e' = ik e"
    "eng_push E b e = Ret () e' \<Longrightarrow> ik e' = ik e"
    "eng_pull E e = Ret r e' \<Longrightarrow> ik e' = ik e"
  using assms unfolding key_view_def by (blast dest: hook_keepsD)+

text \<open>A call list that returns and ends with a key installation leaves that key installed.\<close>

lemma replay_ends_set_key:
  assumes "key_view E ik" and "replay E (cs @ [Call_set_key k]) e = Ret () e'"
  shows "ik e' = k"
proof -
  from assms(2) obtain e1 where "replay E [Call_set_key k] e1 = Ret () e'"
    by (auto simp: replay_append act_seq_apply split: outcome.splits)
  then have "eng_set_key E k e1 = Ret () e'"
    by (simp add: act_seq_apply act_simps split: outcome.splits)
  then show ?thesis by (rule key_viewD(1) [OF assms(1)])
qed

lemma on_base_ends_set_key:
  assumes "key_view E ik" and "on_base (replay E (cs @ [Call_set_key k])) m = Ret () m'"
  shows "ik (base m') = k \<and> key m' = key m"
  using assms(2) replay_ends_set_key [OF assms(1)] by (auto simp: on_base_Ret_iff)

lemma ctor_key_installed:
  assumes "key_view E ik" and "machine_ctor E k e0 = Ret () m"
  shows "key_installed ik m"
proof -
  from assms(2) have "on_base (replay E ([Call_set_space (word_of_nat (length (active_key E k))),
      Call_set_time (default_time E), Call_reset] @ [Call_set_key (active_key E k)]))
      \<lparr>key = active_key E k, base = e0\<rparr> = Ret () m"
    by (simp only: machine_ctor_replay append.simps)
  from on_base_ends_set_key [OF assms(1) this] show ?thesis by (simp add: key_installed_def)
qed

lemma reset_key_installed:
  assumes "key_view E ik" and "reset E m = Ret () m'"
  shows "key_installed ik m'"
proof -
  from assms(2) have "on_base (replay E ([Call_reset] @ [Call_set_key (key m)])) m = Ret () m'"
    by (simp only: reset_replay append.simps)
  from on_base_ends_set_key [OF assms(1) this] show ?thesis by (simp add: key_installed_def)
qed

lemma set_key_installs:
  assumes "key_view E ik" and "set_key E k m = Ret () m'"
  shows "ik (base m') = k \<and> key m' = active_key E k"
proof -
  from assms(2) have "on_base (replay E ([Call_set_space (word_of_nat (length (active_key E k)))] @
      [Call_set_key k])) (m\<lparr>key := active_key E k\<rparr>) = Ret () m'"
    by (simp only: set_key_replay append.simps)
  from on_base_ends_set_key [OF assms(1) this] show ?thesis by simp
qed

lemma on_base_keeps_installed:
  assumes "\<And>e e'. f e = Ret a e' \<Longrightarrow> ik e' = ik e" and "on_base f m = Ret a m'"
    and "key_installed ik m"
  shows "key_installed ik m'"
  using assms by (auto simp: on_base_Ret_iff key_installed_def)

lemma step_key_installed:
  assumes kv: "key_view E ik" and inst: "key_installed ik m" and s: "step E op m = Ret r m'"
    and ne: "op \<noteq> Op_set_key []"
  shows "key_installed ik m'"
proof (cases op)
  case (Op_set_key k)
  with ne have "k \<noteq> []" by simp
  from Op_set_key s have "set_key E k m = Ret () m'" by (simp only: step.simps) (rule seq_ret_None_Ret)
  from set_key_installs [OF kv this] \<open>k \<noteq> []\<close> show ?thesis by (simp add: key_installed_def)
next
  case Op_reset
  with s have "reset E m = Ret () m'" by (simp only: step.simps) (rule seq_ret_None_Ret)
  then show ?thesis by (rule reset_key_installed [OF kv])
next
  case (Op_set_space n)
  with s have o: "on_base (eng_set_space E n) m = Ret () m'"
    by (simp only: step.simps set_space_def) (rule seq_ret_None_Ret)
  show ?thesis by (rule on_base_keeps_installed [OF _ o inst]) (erule key_viewD(2) [OF kv])
next
  case (Op_set_time n)
  with s have o: "on_base (eng_set_time E n) m = Ret () m'"
    by (simp only: step.simps set_time_def) (rule seq_ret_None_Ret)
  show ?thesis by (rule on_base_keeps_installed [OF _ o inst]) (erule key_viewD(3) [OF kv])
next
  case (Op_push b)
  with s have o: "on_base (eng_push E b) m = Ret () m'"
    by (simp only: step.simps push_op_def) (rule seq_ret_None_Ret)
  show ?thesis by (rule on_base_keeps_installed [OF _ o inst]) (erule key_viewD(4) [OF kv])
next
  case Op_pull
  with s obtain v where o: "on_base (eng_pull E) m = Ret v m'"
    by (auto simp: pull_op_def bind_ret_Some_apply split: outcome.splits)
  show ?thesis by (rule on_base_keeps_installed [OF _ o inst]) (erule key_viewD(5) [OF kv])
next
  case Op_call
  with s obtain v where o: "on_base (eng_pull E) m = Ret v m'"
    by (auto simp: bind_ret_Some_apply call_op_Ret split: outcome.splits)
  show ?thesis by (rule on_base_keeps_installed [OF _ o inst]) (erule key_viewD(5) [OF kv])
qed

lemma demo_key_view: "key_view (demo_engine cap) d_key"
  unfolding key_view_def hook_keeps_def
  by (auto simp: demo_engine_def demo_pull_def act_simps split: if_splits)

subsection \<open>Properties\<close>

text \<open>
  C21: the engine stays keyed with the adapter's cached key (spec section 3,
  invariant 3) from construction through every chain of operations that returns
  and contains no key update with the empty key.
\<close>

theorem session_keeps_key_installed:
  assumes kv: "key_view E ik" and c: "machine_ctor E k e0 = Ret () m"
    and r: "run E ops m = Ret vs m'" and ne: "Op_set_key [] \<notin> set ops"
  shows "key_installed ik m'"
proof -
  have "key_installed ik m" by (rule ctor_key_installed [OF kv c])
  with r ne show ?thesis
  proof (induction ops arbitrary: m vs)
    case Nil
    then show ?case by (simp add: ret_def)
  next
    case (Cons op ops)
    from run_Cons_Ret [OF Cons.prems(1)] obtain r1 m1 ws
      where s: "step E op m = Ret r1 m1" and r1: "run E ops m1 = Ret ws m'" by blast
    from Cons.prems(2) have "op \<noteq> Op_set_key []" "Op_set_key [] \<notin> set ops" by auto
    from step_key_installed [OF kv Cons.prems(3) s this(1)] Cons.IH [OF r1 this(2)] show ?case
      by blast
  qed
qed

text \<open>
  C22: on every engine whose configuration hooks do not fail and whose default key
  is non-empty, \<open>set_key\<close> with the empty key returns with the default key cached
  but the engine keyed with the empty key (line 67 passes the argument, not the
  member): the adapter and the engine disagree on the key until a \<open>reset\<close>, which
  re-installs the cached key.
\<close>

theorem empty_key_update_unkeys_engine:
  assumes ct: "config_total E" and kv: "key_view E ik" and dk: "default_key E \<noteq> []"
  shows "\<exists>m'. set_key E [] m = Ret () m' \<and> key m' = default_key E \<and> ik (base m') = [] \<and>
              \<not> key_installed ik m' \<and> (\<forall>m''. reset E m' = Ret () m'' \<longrightarrow> key_installed ik m'')"
proof -
  let ?cs = "[Call_set_space (word_of_nat (length (active_key E []))), Call_set_key []]"
  obtain e' where "replay E ?cs (base (m\<lparr>key := active_key E []\<rparr>)) = Ret () e'"
    using replay_config_total [OF ct, of ?cs "base (m\<lparr>key := active_key E []\<rparr>)"] by auto
  then have "set_key E [] m = Ret () (m\<lparr>key := active_key E [], base := e'\<rparr>)"
    by (simp only: set_key_replay) (simp add: act_simps)
  moreover from set_key_installs [OF kv this] dk
  have "key (m\<lparr>key := active_key E [], base := e'\<rparr>) = default_key E \<and>
        ik (base (m\<lparr>key := active_key E [], base := e'\<rparr>)) = [] \<and>
        \<not> key_installed ik (m\<lparr>key := active_key E [], base := e'\<rparr>)"
    by (simp add: key_installed_def)
  ultimately show ?thesis using reset_key_installed [OF kv] by blast
qed

subsection \<open>Witnesses\<close>

theorem session_keeps_key_installed_witness:
  "key_view (demo_engine (- 1)) d_key \<and>
   machine_ctor (demo_engine (- 1)) [1, 2, 3] demo_init =
     Ret () \<lparr>key = [1, 2, 3], base = \<lparr>d_space = 3, d_time = 16, d_key = [1, 2, 3], d_ctr = 0\<rparr>\<rparr> \<and>
   run (demo_engine (- 1)) [Op_pull, Op_set_key [4], Op_push 2, Op_call]
     \<lparr>key = [1, 2, 3], base = \<lparr>d_space = 3, d_time = 16, d_key = [1, 2, 3], d_ctr = 0\<rparr>\<rparr> =
     Ret [6, 7] \<lparr>key = [4], base = \<lparr>d_space = 1, d_time = 16, d_key = [4], d_ctr = 4\<rparr>\<rparr> \<and>
   key_installed d_key \<lparr>key = [4 :: 8 word], base = \<lparr>d_space = 1, d_time = 16, d_key = [4], d_ctr = 4\<rparr>\<rparr>"
proof -
  have kv: "key_view (demo_engine (- 1)) d_key" by (rule demo_key_view)
  have r: "run (demo_engine (- 1)) [Op_pull, Op_set_key [4], Op_push 2, Op_call]
     \<lparr>key = [1, 2, 3 :: 8 word], base = \<lparr>d_space = 3, d_time = 16, d_key = [1, 2, 3], d_ctr = 0\<rparr>\<rparr> =
     Ret [6, 7] \<lparr>key = [4], base = \<lparr>d_space = 1, d_time = 16, d_key = [4], d_ctr = 4\<rparr>\<rparr>"
    by (simp add: demo_run_simps)
  have ne: "Op_set_key [] \<notin> set [Op_pull, Op_set_key [4], Op_push 2, Op_call :: (8 word, 8 word) mop]" by simp
  show ?thesis using kv demo_ctor_123 r session_keeps_key_installed [OF kv demo_ctor_123 r ne] by simp
qed

theorem empty_key_update_unkeys_engine_witness:
  "config_total (demo_engine (- 1)) \<and> key_view (demo_engine (- 1)) d_key \<and>
   default_key (demo_engine (- 1)) \<noteq> [] \<and>
   (\<exists>m'. set_key (demo_engine (- 1)) [] \<lparr>key = [1, 2, 3], base = demo_init\<rparr> = Ret () m' \<and>
      key m' = [1, 2, 3, 4, 5, 6, 7, 8] \<and> d_key (base m') = [] \<and> \<not> key_installed d_key m' \<and>
      (\<forall>m''. reset (demo_engine (- 1)) m' = Ret () m'' \<longrightarrow> key_installed d_key m''))"
proof -
  have ct: "config_total (demo_engine (- 1))"
    using demo_engine_contract by (simp add: engine_contract_def)
  have kv: "key_view (demo_engine (- 1)) d_key" by (rule demo_key_view)
  have dk: "default_key (demo_engine (- 1)) \<noteq> []" by simp
  show ?thesis using ct kv dk empty_key_update_unkeys_engine [OF ct kv dk, of "\<lparr>key = [1, 2, 3], base = demo_init\<rparr>"]
    by simp
qed

end
