(* ===== verification/Limits.thy ===== *)
theory Limits
  imports Prelude
begin

unbundle bit_operations_syntax

text \<open>
  The static bounds queries of \<open>chaos::machine\<close> (src/include/chaos/machine.hh, lines
  30-35): \<open>max()\<close> is \<open>std::numeric_limits<size_pull>::max()\<close> and \<open>min()\<close> is
  \<open>std::numeric_limits<size_pull>::lowest()\<close>, for the engine's output block type.
  For an integral block type of \<open>LENGTH('w)\<close> bits, unsigned or two's complement
  signed (\<open>signedness\<close>), the values are computed as the standard library computes
  them: all bits set and zero for an unsigned type; the low \<open>LENGTH('w) - 1\<close> bits
  set, and \<open>-max - 1\<close>, for a signed one. \<open>repr_val\<close> reads a block as the
  integer it represents. The lemmas show the exact values and that no block
  lies outside \<open>[min(), max()]\<close>. Floating-point block types are not modelled.
\<close>

datatype signedness = Unsigned | Signed

definition machine_max :: "signedness \<Rightarrow> 'w::len word" where
  "machine_max s = (case s of Unsigned \<Rightarrow> NOT 0 | Signed \<Rightarrow> mask (LENGTH('w) - 1))"

definition machine_min :: "signedness \<Rightarrow> 'w::len word" where
  "machine_min s = (case s of Unsigned \<Rightarrow> 0 | Signed \<Rightarrow> - machine_max Signed - 1)"

fun repr_val :: "signedness \<Rightarrow> 'w::len word \<Rightarrow> int" where
  "repr_val Unsigned w = uint w"
| "repr_val Signed w = sint w"

subsection \<open>Word lemmas\<close>

lemma sint_in_range:
  "- (2 ^ (LENGTH('w) - 1)) \<le> i \<Longrightarrow> i < 2 ^ (LENGTH('w) - 1) \<Longrightarrow> sint (word_of_int i :: 'w::len word) = i"
  by (metis signed_take_bit_int_eq_self sint_sbintrunc')

lemma mask_word_of_int: "(mask n :: 'w::len word) = word_of_int (2 ^ n - 1)"
  by (simp add: mask_eq_exp_minus_1)

lemma uint_not_zero: "uint (NOT 0 :: 'w::len word) = 2 ^ LENGTH('w) - 1"
  by (simp add: mask_eq_exp_minus_1 unsigned_minus_1_eq_mask)

lemma sint_mask_high: "sint (mask (LENGTH('w) - 1) :: 'w::len word) = 2 ^ (LENGTH('w) - 1) - 1"
proof -
  have "(0::int) < 2 ^ (LENGTH('w) - 1)" by simp
  then show ?thesis unfolding mask_word_of_int by (intro sint_in_range) simp_all
qed

lemma sint_signed_lowest: "sint (- mask (LENGTH('w) - 1) - 1 :: 'w::len word) = - (2 ^ (LENGTH('w) - 1))"
proof -
  have eq: "(- mask (LENGTH('w) - 1) - 1 :: 'w word) = word_of_int (- (2 ^ (LENGTH('w) - 1)))"
    unfolding mask_word_of_int by simp
  have "sint (word_of_int (- (2 ^ (LENGTH('w) - 1))) :: 'w word) = - (2 ^ (LENGTH('w) - 1))"
    by (rule sint_in_range) simp_all
  with eq show ?thesis by (simp only:)
qed

lemma limits_values:
  "repr_val Unsigned (machine_max Unsigned :: 'w::len word) = 2 ^ LENGTH('w) - 1"
  "repr_val Unsigned (machine_min Unsigned :: 'w::len word) = 0"
  "repr_val Signed (machine_max Signed :: 'w::len word) = 2 ^ (LENGTH('w) - 1) - 1"
  "repr_val Signed (machine_min Signed :: 'w::len word) = - (2 ^ (LENGTH('w) - 1))"
  unfolding repr_val.simps machine_min_def machine_max_def signedness.case
  by (rule uint_not_zero, simp, rule sint_mask_high, rule sint_signed_lowest)

subsection \<open>Properties\<close>

text \<open>
  C14: \<open>max()\<close> and \<open>min()\<close> are exactly the range limits of the representation:
  \<open>2^n - 1\<close> and \<open>0\<close> for an unsigned \<open>n\<close>-bit block, \<open>2^(n-1) - 1\<close> and
  \<open>-2^(n-1)\<close> for a signed one.
\<close>

theorem max_min_exact:
  "repr_val Unsigned (machine_max Unsigned :: 'w::len word) = 2 ^ LENGTH('w) - 1 \<and>
   repr_val Unsigned (machine_min Unsigned :: 'w::len word) = 0 \<and>
   repr_val Signed (machine_max Signed :: 'w::len word) = 2 ^ (LENGTH('w) - 1) - 1 \<and>
   repr_val Signed (machine_min Signed :: 'w::len word) = - (2 ^ (LENGTH('w) - 1))"
  by (intro conjI) (rule limits_values)+

text \<open>C15: every output block lies between \<open>min()\<close> and \<open>max()\<close>.\<close>

theorem max_min_bound:
  "repr_val s (machine_min s :: 'w::len word) \<le> repr_val s (w :: 'w word) \<and> repr_val s w \<le> repr_val s (machine_max s :: 'w word)"
proof (cases s)
  case Unsigned
  have m: "uint (machine_max Unsigned :: 'w word) = 2 ^ LENGTH('w) - 1"
    "uint (machine_min Unsigned :: 'w word) = 0"
    using limits_values(1,2) [where 'w = 'w] by simp_all
  show ?thesis unfolding Unsigned repr_val.simps m
    using uint_lt2p [of w] uint_ge_0 [of w] by linarith
next
  case Signed
  with sint_ge [of w] sint_lt [of w] limits_values(3,4) [where 'w = 'w] show ?thesis by simp
qed

end
