(* ===== verification/Wellformed.thy ===== *)
theory Wellformed
  imports Abstract
begin

text \<open>
  The well-formedness of an adapter, invariants 1 and 2 of the spec (section 3):
  the active key is non-empty and the space is the key's length. \<open>wf_machine\<close>
  states it of a machine, through the engine's observation of the space.
  \<open>configured E m\<close> holds for every machine reached from construction by
  operations that returned and are not \<open>set_space\<close>. It is the inductive
  step relation of the adapter's normal use.

  The invariant is first proved of the specification (\<open>spec_step_wf\<close>) and
  then carried to the code through the refinement lemmas of Abstract.thy. An
  operation that throws can leave a machine that is not well-formed: \<open>set_key\<close>
  caches the new key before it sets the space (src/include/chaos/machine.hh,
  lines 65 and 66).

  Bounded completion (spec section 5): on the call-recording engine every
  operation makes one or two hook calls, so a chain of \<open>n\<close> operations makes
  between \<open>n\<close> and \<open>2 n\<close>. The source has no loop; this bound is what its
  termination amounts to.
\<close>

definition wf_machine :: "('e \<Rightarrow> size_t) \<Rightarrow> ('c, 'e) machine \<Rightarrow> bool" where
  "wf_machine sp m \<longleftrightarrow> key m \<noteq> [] \<and> sp (base m) = word_of_nat (length (key m))"

inductive configured :: "('c, 'i, 'o, 'e, 'x) engine \<Rightarrow> ('c, 'e) machine \<Rightarrow> bool" for E where
  init: "machine_ctor E k e0 = Ret () m \<Longrightarrow> configured E m"
| step: "configured E m \<Longrightarrow> \<not> is_set_space op \<Longrightarrow> step E op m = Ret r m' \<Longrightarrow> configured E m'"

subsection \<open>The invariant on the specification\<close>

definition spec_wf :: "'c adapter \<Rightarrow> bool" where
  "spec_wf a \<longleftrightarrow> a_key a \<noteq> [] \<and> a_space a = word_of_nat (length (a_key a))"

lemma spec_init_wf: "dk \<noteq> [] \<Longrightarrow> spec_wf (spec_init dk dt k)"
  by (simp add: spec_wf_def spec_init_def Let_def)

lemma spec_step_wf: "dk \<noteq> [] \<Longrightarrow> spec_wf a \<Longrightarrow> \<not> is_set_space op \<Longrightarrow> spec_wf (spec_step dk op a)"
  by (cases op) (simp_all add: spec_wf_def Let_def)

lemma wf_machine_abs: "wf_machine sp m \<longleftrightarrow> spec_wf (abs_machine sp tm m)"
  by (simp add: wf_machine_def spec_wf_def abs_machine_def)

subsection \<open>Hook calls per operation\<close>

lemma step_trace_calls:
  "\<exists>r m' cs. step (trace_engine dk dt) op m = Ret r m' \<and> base m' = base m @ cs \<and>
             1 \<le> length cs \<and> length cs \<le> 2"
proof (cases op)
  case (Op_set_key k)
  then show ?thesis
    by (simp only: step.simps act_seq_apply set_key_replay on_base_trace outcome.case) (simp add: ret_def)
next
  case (Op_set_space n)
  then show ?thesis
    by (simp only: step.simps act_seq_apply set_space_replay on_base_trace outcome.case) (simp add: ret_def)
next
  case (Op_set_time n)
  then show ?thesis
    by (simp only: step.simps act_seq_apply set_time_replay on_base_trace outcome.case) (simp add: ret_def)
next
  case Op_reset
  then show ?thesis
    by (simp only: step.simps act_seq_apply reset_replay on_base_trace outcome.case) (simp add: ret_def)
next
  case (Op_push b)
  then show ?thesis
    by (simp only: step.simps act_seq_apply push_op_replay on_base_trace outcome.case) (simp add: ret_def)
next
  case Op_pull
  then show ?thesis
    by (simp add: pull_op_def bind_ret_Some_apply act_simps trace_engine_def)
next
  case Op_call
  then show ?thesis
    by (simp add: call_op_def bind_ret_Some_apply act_simps trace_engine_def)
qed

subsection \<open>Properties\<close>

text \<open>
  C26: on an engine meeting the contract, every machine reached from construction
  by operations that returned, none of them \<open>set_space\<close>, is well-formed: its
  cached key is non-empty and its space is the key's length (spec section 3,
  invariants 1 and 2).
\<close>

theorem configured_well_formed:
  assumes c: "engine_contract E sp tm" and cf: "configured E m"
  shows "wf_machine sp m"
  using cf
proof induction
  case (init k e0 m)
  from ctor_abs [OF c, of k e0] init have "abs_machine sp tm m = spec_init (default_key E) (default_time E) k"
    by simp
  with c show ?case by (simp add: wf_machine_abs [where tm = tm] spec_init_wf engine_contract_def)
next
  case (step m op r m')
  from c have v: "engine_view E sp tm" and dk: "default_key E \<noteq> []" by (simp_all add: engine_contract_def)
  from step.IH have "spec_wf (abs_machine sp tm m)" by (simp add: wf_machine_abs [where tm = tm])
  from spec_step_wf [OF dk this step.hyps(2)] step_abs [OF v step.hyps(3)]
  show ?case by (simp add: wf_machine_abs [where tm = tm])
qed

text \<open>
  C27: every operation completes after a bounded number of engine calls (spec
  section 5): on the call-recording engine a chain of \<open>n\<close> operations returns after
  at least \<open>n\<close> and at most \<open>2 n\<close> hook calls, each operation making one or two.
\<close>

theorem run_bounded_calls:
  "\<exists>vs m' cs. run (trace_engine dk dt :: ('c, 'i, nat, ('c, 'i) call list, 'x) engine) ops m = Ret vs m' \<and> base m' = base m @ cs \<and>
              length ops \<le> length cs \<and> length cs \<le> 2 * length ops"
proof (induction ops arbitrary: m)
  case Nil
  then show ?case by (simp add: ret_def)
next
  case (Cons op ops)
  from step_trace_calls [of dk dt op m] obtain r m1 cs1 where
    s: "step (trace_engine dk dt :: ('c, 'i, nat, ('c, 'i) call list, 'x) engine) op m = Ret r m1" and b1: "base m1 = base m @ cs1"
    and l1: "1 \<le> length cs1" "length cs1 \<le> 2" by blast
  from Cons.IH [of m1] obtain vs m' cs2 where
    r: "run (trace_engine dk dt :: ('c, 'i, nat, ('c, 'i) call list, 'x) engine) ops m1 = Ret vs m'" and b2: "base m' = base m1 @ cs2"
    and l2: "length ops \<le> length cs2" "length cs2 \<le> 2 * length ops" by blast
  from s r have "run (trace_engine dk dt :: ('c, 'i, nat, ('c, 'i) call list, 'x) engine) (op # ops) m = Ret (cons_opt r vs) m'"
    by (simp add: act_bind_apply ret_def)
  moreover from b1 b2 have "base m' = base m @ (cs1 @ cs2)" by simp
  moreover from l1 l2 have "length (op # ops) \<le> length (cs1 @ cs2)" "length (cs1 @ cs2) \<le> 2 * length (op # ops)"
    by simp_all
  ultimately show ?case by blast
qed

subsection \<open>Witnesses\<close>

theorem configured_well_formed_witness:
  "engine_contract (demo_engine (- 1)) d_space d_time \<and>
   configured (demo_engine (- 1)) \<lparr>key = [4, 4 :: 8 word], base = \<lparr>d_space = 2, d_time = 16, d_key = [4, 4], d_ctr = 0\<rparr>\<rparr> \<and>
   wf_machine d_space \<lparr>key = [4, 4 :: 8 word], base = \<lparr>d_space = 2, d_time = 16, d_key = [4, 4], d_ctr = 0\<rparr>\<rparr>"
proof -
  have s: "step (demo_engine (- 1)) (Op_set_key [4, 4]) \<lparr>key = [1, 2, 3 :: 8 word], base = \<lparr>d_space = 3, d_time = 16, d_key = [1, 2, 3], d_ctr = 0\<rparr>\<rparr> =
      Ret None \<lparr>key = [4, 4 :: 8 word], base = \<lparr>d_space = 2, d_time = 16, d_key = [4, 4], d_ctr = 0\<rparr>\<rparr>"
    by (simp add: demo_run_simps)
  have ns: "\<not> is_set_space (Op_set_key [4, 4] :: (8 word, 8 word) mop)" by simp
  have cf: "configured (demo_engine (- 1)) \<lparr>key = [4, 4 :: 8 word], base = \<lparr>d_space = 2, d_time = 16, d_key = [4, 4], d_ctr = 0\<rparr>\<rparr>"
    by (rule configured.step [OF configured.init [OF demo_ctor_123] ns s])
  show ?thesis using demo_engine_contract cf configured_well_formed [OF demo_engine_contract cf] by simp
qed

end
