(* ===== verification/Spec2Isabelle.thy ===== *)
theory Spec2Isabelle
  imports Abstract Faults KeyInstall Limits Wellformed
begin

text \<open>
  \<^bold>\<open>Verification of libchaos' adapter \<open>chaos::machine\<close>\<close>
  (src/include/chaos/machine.hh, the only source file).

  \<^bold>\<open>The program.\<close> \<open>machine<engine>\<close> derives virtually from a concrete chaotic
  algorithm, the engine, and keeps one member of its own, the active \<open>key\<close>. The
  constructor installs the given key, or the engine's \<open>__default_key\<close> when the
  given key is empty, sets the space to the key's size, the time to
  \<open>__default_time\<close>, and resets. \<open>set_key\<close> replaces the cached key and the
  space and calls the engine's \<open>__set_key\<close>. \<open>set_space\<close> and \<open>set_time\<close>
  forward to the engine. \<open>reset\<close> calls \<open>__reset\<close> and re-installs the cached
  key. \<open>max()\<close> and \<open>min()\<close> report the numeric limits of the output block type.
  \<open>operator<<\<close>, \<open>operator>>\<close> and the \<open>noexcept\<close> \<open>operator()\<close> push
  blocks into the engine and pull blocks out of it. All state except the key
  lives in the engine.

  \<^bold>\<open>Theories.\<close>
  \<^item> Prelude: C++ member calls as actions \<open>'s \<Rightarrow> ('x, 's, 'a) outcome\<close>. An
    action returns (\<open>Ret\<close>), throws with the state reached so far (\<open>Thrown\<close>;
    C++ rolls no member assignment back), or ends the program (\<open>Terminated\<close>,
    for an exception that leaves a \<open>noexcept\<close> function). The theory has the
    combinators \<open>act_bind\<close>, \<open>act_seq\<close>, \<open>noexcept\<close> and \<open>lift_act\<close>, their
    monad laws, and the collection \<open>act_simps\<close>.
  \<^item> Engine: the template parameter, which is not in the sources. It is modelled
    from spec section 6 as the record \<open>engine\<close> of \<open>default_key\<close>,
    \<open>default_time\<close> and the hooks \<open>eng_set_key\<close>, \<open>eng_set_space\<close>,
    \<open>eng_set_time\<close>, \<open>eng_reset\<close>, \<open>eng_push\<close> and \<open>eng_pull\<close>, over an
    abstract engine state. The contract's clauses are predicates:
    \<open>config_total\<close> (configuration hooks do not throw), \<open>engine_view\<close> (how
    the hooks move the space and time parameters), \<open>reset_canonical\<close> (reset
    depends on space and time only). Hook calls form the interface datatype \<open>call\<close>, and
    \<open>replay\<close> runs a list of them. Two engines serve as instances:
    \<^item> \<open>trace_engine\<close> records the calls it receives;
    \<^item> \<open>demo_engine\<close> is a keyed byte counter that meets the contract. Its
      set-space throws above a capacity, and its pull throws when no key is
      installed.
  \<^item> Machine: the record \<open>machine\<close> (member \<open>key\<close>, engine sub-object \<open>base\<close>)
    and \<open>machine_ctor\<close>, \<open>set_key\<close>, \<open>set_space\<close>, \<open>set_time\<close> and
    \<open>reset\<close>. Each translates its body statement by statement; \<open>active_key\<close>
    is the conditional on lines 54 and 65. The \<open>*_replay\<close> lemmas give each
    operation as a key update followed by a list of hook calls. Proved:
    the results under the contract (C1, C2); reset equals fresh construction
    and is deterministic (C3, C4); and the exact call order (C5 to C8).
    \<open>machine_default\<close> is the
    constructor with its default argument \<open>{}\<close> (line 19). It equals
    construction with the default key, while \<open>set_key({})\<close> differs from
    \<open>set_key\<close> with the default key (C23).
  \<^item> Streaming: \<open>push_op\<close>, \<open>pull_op\<close> and \<open>call_op\<close> (lines 36 to 48). The
    datatype \<open>mop\<close> of public operations has the step function \<open>step\<close>, and
    \<open>run\<close> runs a chain of them. The inductive \<open>reachable\<close> holds for the
    machines a client can observe, including after an operation threw.
    Proved: the key is never empty (C9, rule induction); \<open>operator()\<close>
    terminates where \<open>operator>>\<close> throws (C10), and the two agree when either
    returns (C11); the space stays consistent (C12); streams after reset
    repeat (C13).
  \<^item> Limits: \<open>machine_max\<close> and \<open>machine_min\<close> for an unsigned or two's
    complement block of \<open>LENGTH('w)\<close> bits (lines 30 to 35). Proved: exact
    values (C14), and every block lies within them (C15).
  \<^item> Abstract: the spec's abstract adapter, the record \<open>adapter\<close> of key,
    space and time, with \<open>spec_init\<close> (construction) and \<open>spec_step\<close> (each
    public operation), and the abstraction \<open>abs_machine\<close> of a machine through
    the engine's observations of space and time. Per-operation lemmas
    (\<open>*_step_abs\<close>, \<open>step_abs\<close>) give the simulation step. Proved: every
    returning chain refines the fold of \<open>spec_step\<close> (C16). On an engine that
    meets the contract and never fails (\<open>engine_total\<close>), construction and
    every chain return and end in the specified abstract state (C17, liveness).
  \<^item> Faults: failure paths. \<open>faulty_engine\<close> records its calls and throws at
    the calls a predicate selects. Proved: every exception that escapes a chain
    is a hook's, unchanged (C18, spec section 7); construction stops at its first
    failing hook (C19); \<open>reset\<close> fails at \<open>__reset\<close> or at the re-installation
    of the key, and in the second case leaves the engine reset and keyless (C20).
    \<open>set_key\<close> fails at set-space or at \<open>__set_key\<close>, and in the second case
    leaves the engine with the new space but the old key (C24). The helper
    \<open>two_hooks_Thrown_iff\<close> carries both. On an engine whose hooks never
    call \<open>std::terminate\<close>, a chain ends the program only at an
    \<open>operator()\<close> whose pull throws (C25).
  \<^item> KeyInstall: the contract clause \<open>key_view\<close> (install-key sets an
    observable installed key, which the other hooks except reset keep) and the
    spec's invariant 3, \<open>key_installed\<close>. Proved: construction, \<open>reset\<close> and
    every operation except an empty key update keep the engine keyed with the
    cached key (C21); on every such engine an empty key update breaks it until
    the next \<open>reset\<close> (C22, the defect of line 67 for any engine).
  \<^item> Wellformed: \<open>wf_machine\<close> is the spec's invariants 1 and 2: the key is
    non-empty and the space is its length. The inductive \<open>configured\<close> holds
    for machines reached from construction by returning operations other than
    \<open>set_space\<close>. Proved: every configured machine is well-formed, with the
    invariant proved on the specification (\<open>spec_step_wf\<close>) and carried over
    by refinement (C26, a type invariant). On the call-recording engine a
    chain of \<open>n\<close> operations completes after between \<open>n\<close> and \<open>2 n\<close> hook
    calls (C27, bounded completion per spec section 5).
  \<^item> This theory: the header of the development; it imports every component.

  \<^bold>\<open>Bounds and fuel.\<close> Every operation is a fixed finite sequence of hook
  calls, and \<open>run\<close> and \<open>replay\<close> recurse structurally over their lists, so no
  fuel or termination measure is needed. Whether an operation returns depends
  only on whether a hook throws: C17 proves that on an engine none of whose hooks
  fails every chain returns, so the refinement is not only partial. The source
  has no loop and no recursion, so termination amounts to a bound on the engine
  calls each operation makes: one or two, and four for construction (C27, C5). The
  only way the program does not return is \<open>std::terminate\<close>, which C25
  characterises. Sizes are \<open>size_t\<close>, a \<open>64 word\<close>. A vector's size is below
  \<open>2 ^ 64\<close>, so the conversion \<open>word_of_nat\<close> is exact
  (\<open>unat_size_of_length\<close>).

  \<^bold>\<open>Not modelled.\<close>
  \<^item> The engine's algorithm and chaos/types.hh: not in the sources, and out of
    scope per the spec. Only the engine's contract is modelled.
  \<^item> Allocation failure when the key vector is copied.
  \<^item> Floating-point output block types for \<open>max()\<close> and \<open>min()\<close>.
  \<^item> Concurrent use of one machine: undefined behaviour per spec section 5.
\<close>

end
